theory Spec2Isabelle
  imports Main
begin

section \<open>Inventory service: data model\<close>

text \<open>
  The service keeps two module-level variables, \<^verbatim>\<open>inventory\<close> (an array of item objects)
  and \<^verbatim>\<open>nextId\<close> (a counter), mirrors the array into \<^verbatim>\<open>inventory.json\<close> and stores
  uploaded photos as files of the cache directory. The model passes this state
  explicitly as a record \<open>world\<close>; every handler takes the world and the request and
  returns the response together with the new world.

  The repository also holds \<^verbatim>\<open>index.js\<close>, the first stage of the server, which answers
  every request with the same text; the inventory service is the Express application.

  Modelling conventions.
  \<^item> Ids are JavaScript numbers, that is doubles, with integer values. They are modelled
    as \<open>int\<close>, and every operation that produces a number rounds its exact result to
    the nearest double (\<open>round_double\<close>).
  \<^item> Strings are HOL strings: lists of characters with codes below 256.
  \<^item> \<^verbatim>\<open>req.body\<close> is \<open>None\<close> when no body parser produced a body (it is then
    \<^verbatim>\<open>undefined\<close>, as Express 5 leaves it), and otherwise an object whose fields are
    optional strings: \<open>None\<close> for a field that was not sent.
  \<^item> Writing a file always succeeds.
\<close>

type_synonym bytes = "char list"

record item =
  item_id :: int
  inventory_name :: string
  description :: string
  photoFilename :: "string option"

text \<open>
  \<open>PhotoUrl base i\<close> stands for the string
  \<^verbatim>\<open>`${base}/inventory/${i}/photo`\<close>.
\<close>

datatype url = PhotoUrl string int

record dto =
  dto_id :: int
  dto_inventory_name :: string
  dto_description :: string
  photo_url :: "url option"

record search_result =
  sr_id :: int
  sr_inventory_name :: string
  sr_description :: string
  has_photo :: bool
  sr_photo_url :: "url option"

text \<open>
  The file \<^verbatim>\<open>inventory.json\<close> as \<^verbatim>\<open>loadInventory\<close> sees it: it does not exist,
  or it exists and reading or parsing it throws (the raw text is kept), or
  \<^verbatim>\<open>JSON.parse\<close> returns an array of items.

  The field \<open>files\<close> of the world maps the name of every photo file in the cache
  directory to its contents. The inventory file is kept apart from them: multer names
  the photos \<^verbatim>\<open>photo_<time>_<original name>\<close>, so none of them is \<^verbatim>\<open>inventory.json\<close>.
\<close>

datatype inv_file = Absent | Corrupt string | Holds "item list"

record world =
  inventory :: "item list"
  nextId :: int
  inventory_file :: inv_file
  files :: "string \<rightharpoonup> bytes"

datatype http_method = GET | HEAD | POST | PUT | DELETE | PATCH | OPTIONS

text \<open>The part named \<^verbatim>\<open>photo\<close> of a multipart body.\<close>

record upload =
  originalname :: string
  content :: bytes

text \<open>The fields of a parsed body that the handlers read.\<close>

record fields =
  body_inventory_name :: "string option"
  body_description :: "string option"
  body_id :: "string option"
  body_has_photo :: "string option"

text \<open>
  A request as the handlers of its route see it. \<open>body\<close> is \<^verbatim>\<open>req.body\<close>: the object
  that \<^verbatim>\<open>express.json\<close> or \<^verbatim>\<open>express.urlencoded\<close> produced or, for a multipart body on
  a route that runs multer, the object that multer fills with the text fields; it is
  \<open>None\<close> when \<^verbatim>\<open>req.body\<close> is undefined. \<open>photo_part\<close> is the part named
  \<^verbatim>\<open>photo\<close> of a multipart body; \<open>now\<close> is the value of \<^verbatim>\<open>Date.now()\<close> when multer
  names the uploaded file (an integer below \<open>8.64e15\<close>, which a template literal
  renders in decimal).
\<close>

record request =
  req_method :: http_method
  path :: "string list"
  protocol :: string
  host :: string
  body :: "fields option"
  photo_part :: "upload option"
  now :: nat

datatype json_body =
    ErrorBody string
  | MessageBody string
  | ItemBody dto
  | ListBody "dto list"
  | SearchBody search_result

datatype js_error = TypeError

text \<open>
  \<open>Json status body\<close> is \<^verbatim>\<open>res.status(status).json(body)\<close>; \<open>SentFile\<close> is a
  successful \<^verbatim>\<open>res.sendFile\<close> with its status, content type and the bytes of the file;
  \<open>ErrorPage status\<close> is the HTML page with which Express answers an error that
  \<^verbatim>\<open>res.sendFile\<close> passes on; \<open>SwaggerUi\<close> is whatever the middleware of
  \<^verbatim>\<open>swagger-ui-express\<close> answers; \<open>Uncaught\<close> is an exception thrown inside a handler,
  which Express answers with status 500.
\<close>

datatype response =
    Json nat json_body
  | SentFile nat string bytes
  | ErrorPage nat
  | SwaggerUi
  | Uncaught js_error

text \<open>
  The source holds two revisions of the server. They differ in two places only: the
  later one mounts the Swagger UI under \<^verbatim>\<open>/docs\<close>, and its photo route builds the
  path of the file with \<^verbatim>\<open>path.resolve\<close> where the earlier one uses \<^verbatim>\<open>path.join\<close>.
\<close>

datatype revision = Base | WithSwagger

text \<open>
  The environment of the process: the \<^verbatim>\<open>--cache\<close> option, whether the absolute path of
  the cache directory has a segment that begins with a dot, the files beside the
  script, and whether the absolute path of the script's directory has such a segment.
\<close>

record options =
  cache :: string
  cache_hidden :: bool
  script_files :: "string \<rightharpoonup> bytes"
  script_hidden :: bool

section \<open>JavaScript numbers\<close>

text \<open>
  A double holds an integer exactly when the integer has at most 53 significant bits.
  \<open>exponent m\<close> is the number of low bits that do not fit; \<open>round_double\<close> rounds an
  integer to the nearest such integer, a tie going to the even significand.
\<close>

fun exponent :: "nat \<Rightarrow> nat" where
  "exponent m = (if m < 2 ^ 53 then 0 else Suc (exponent (m div 2)))"

declare exponent.simps [simp del]

definition round_double :: "int \<Rightarrow> int" where
  "round_double n =
     (let m = nat \<bar>n\<bar>;
          e = exponent m;
          q = m div 2 ^ e;
          r = m mod 2 ^ e;
          q' = (if 2 ^ e < 2 * r \<or> (2 * r = 2 ^ e \<and> odd q) then q + 1 else q)
      in sgn n * int (q' * 2 ^ e))"

text \<open>
  The value of an expression whose exact result is an integer: \<^verbatim>\<open>NaN\<close> does not occur
  here, and a result that rounds to \<open>2 ^ 1024\<close> or more is an infinity.
\<close>

datatype number = NaN | Finite int | Infinity | MinusInfinity

definition to_number :: "int \<Rightarrow> number" where
  "to_number n =
     (if 2 ^ 1024 \<le> \<bar>round_double n\<bar> then (if n < 0 then MinusInfinity else Infinity)
      else Finite (round_double n))"

section \<open>JavaScript library functions\<close>

text \<open>
  The characters that \<^verbatim>\<open>String.prototype.trim\<close> and \<^verbatim>\<open>parseInt\<close> skip, as far as
  their codes are below 256: TAB, LF, VT, FF, CR, SPACE and NBSP.
\<close>

definition is_white_space :: "char \<Rightarrow> bool" where
  "is_white_space c = ((of_char c :: nat) \<in> set [9, 10, 11, 12, 13, 32, 160])"

definition trim :: "string \<Rightarrow> string" where
  "trim s = rev (dropWhile is_white_space (rev (dropWhile is_white_space s)))"

definition is_digit :: "char \<Rightarrow> bool" where
  "is_digit c = (48 \<le> (of_char c :: nat) \<and> (of_char c :: nat) \<le> 57)"

definition digit_value :: "char \<Rightarrow> nat" where
  "digit_value c = of_char c - 48"

definition digits_value :: "string \<Rightarrow> nat" where
  "digits_value ds = foldl (\<lambda>acc c. 10 * acc + digit_value c) 0 ds"

definition strip_sign :: "string \<Rightarrow> bool \<times> string" where
  "strip_sign s =
     (case s of
        [] \<Rightarrow> (False, [])
      | c # r \<Rightarrow>
          if c = CHR ''-'' then (True, r)
          else if c = CHR ''+'' then (False, r)
          else (False, s))"

text \<open>
  \<^verbatim>\<open>parseInt(s, 10)\<close>: skip leading white space, read an optional sign, then the
  longest run of decimal digits; whatever follows is ignored. Without a digit the
  result is \<^verbatim>\<open>NaN\<close>; otherwise it is the double nearest to the integer read.
\<close>

definition parseInt :: "string \<Rightarrow> number" where
  "parseInt s =
     (let (neg, s2) = strip_sign (dropWhile is_white_space s);
          ds = takeWhile is_digit s2
      in if ds = [] then NaN
         else to_number (if neg then - int (digits_value ds) else int (digits_value ds)))"

text \<open>\<^verbatim>\<open>parseInt\<close> first converts its argument to a string.\<close>

definition to_js_string :: "string option \<Rightarrow> string" where
  "to_js_string v = (case v of None \<Rightarrow> ''undefined'' | Some s \<Rightarrow> s)"

text \<open>Decimal rendering of \<^verbatim>\<open>Date.now()\<close> inside a template literal.\<close>

fun show_nat :: "nat \<Rightarrow> string" where
  "show_nat n =
     (if n < 10 then [char_of (48 + n)]
      else show_nat (n div 10) @ [char_of (48 + n mod 10)])"

declare show_nat.simps [simp del]

text \<open>Truthiness of a value that is a string or \<^verbatim>\<open>null\<close>.\<close>

definition truthy :: "string option \<Rightarrow> bool" where
  "truthy v = (case v of None \<Rightarrow> False | Some s \<Rightarrow> s \<noteq> [])"

text \<open>\<^verbatim>\<open>Array.prototype.findIndex\<close>; \<open>None\<close> is the result \<open>-1\<close>.\<close>

fun findIndex :: "('a \<Rightarrow> bool) \<Rightarrow> 'a list \<Rightarrow> nat option" where
  "findIndex P [] = None"
| "findIndex P (x # xs) =
     (if P x then Some 0 else map_option Suc (findIndex P xs))"

text \<open>
  Assignment to a field of the object that \<^verbatim>\<open>Array.prototype.find\<close> returned: the
  first element satisfying the predicate is changed in place.
\<close>

fun update_first :: "('a \<Rightarrow> bool) \<Rightarrow> ('a \<Rightarrow> 'a) \<Rightarrow> 'a list \<Rightarrow> 'a list" where
  "update_first P f [] = []"
| "update_first P f (x # xs) =
     (if P x then f x # xs else x # update_first P f xs)"

text \<open>
  Paths of files to send. A path is abstracted to what the handlers and
  \<^verbatim>\<open>res.sendFile\<close> depend on: whether the path string is absolute, whether one of its
  segments begins with a dot, and the name of the file inside its directory (a name
  is a single segment, as multer produces it).
  \<^verbatim>\<open>path.join(options.cache, name)\<close> is absolute exactly when the cache option is (the
  option is never empty: creating the directory would fail at startup);
  \<^verbatim>\<open>path.resolve\<close> always returns an absolute path.
\<close>

datatype file_path = FilePath (absolute: bool) (hidden: bool) (stored: string)

definition isAbsolute :: "string \<Rightarrow> bool" where
  "isAbsolute p = (case p of [] \<Rightarrow> False | c # _ \<Rightarrow> c = CHR ''/'')"

definition dot_name :: "string \<Rightarrow> bool" where
  "dot_name name = (case name of c # _ # _ \<Rightarrow> c = CHR ''.'' | _ \<Rightarrow> False)"

definition path_join :: "options \<Rightarrow> string \<Rightarrow> file_path" where
  "path_join opts name =
     FilePath (isAbsolute (cache opts)) (cache_hidden opts \<or> dot_name name) name"

definition path_resolve :: "options \<Rightarrow> string \<Rightarrow> file_path" where
  "path_resolve opts name = FilePath True (cache_hidden opts \<or> dot_name name) name"

text \<open>
  \<^verbatim>\<open>res.sendFile(path)\<close> of Express throws a \<^verbatim>\<open>TypeError\<close> when it is given a relative
  path and no \<^verbatim>\<open>root\<close> option. Otherwise it streams the file, unless the path has a
  segment that begins with a dot or the file does not exist: then the error is passed
  on and Express answers with its 404 page.
\<close>

definition sendFile :: "nat \<Rightarrow> string \<Rightarrow> file_path \<Rightarrow> bytes option \<Rightarrow> response" where
  "sendFile status ctype p file =
     (if \<not> absolute p then Uncaught TypeError
      else if hidden p then ErrorPage 404
      else (case file of None \<Rightarrow> ErrorPage 404 | Some b \<Rightarrow> SentFile status ctype b))"

section \<open>The store\<close>

definition loadInventory :: "inv_file \<Rightarrow> item list" where
  "loadInventory f = (case f of Absent \<Rightarrow> [] | Corrupt raw \<Rightarrow> [] | Holds xs \<Rightarrow> xs)"

definition saveInventory :: "item list \<Rightarrow> world \<Rightarrow> world" where
  "saveInventory data w = w\<lparr>inventory_file := Holds data\<rparr>"

definition initial_nextId :: "item list \<Rightarrow> int" where
  "initial_nextId data =
     (if length data > 0
      then round_double (foldl (\<lambda>mx it. max mx (item_id it)) 0 data + 1)
      else 1)"

text \<open>Module initialisation: the state of the process when it starts to listen.\<close>

definition boot :: "inv_file \<Rightarrow> (string \<rightharpoonup> bytes) \<Rightarrow> world" where
  "boot f fs =
     \<lparr>inventory = loadInventory f,
      nextId = initial_nextId (loadInventory f),
      inventory_file = f,
      files = fs\<rparr>"

text \<open>
  \<^verbatim>\<open>item.id === id\<close> is false for every item when \<^verbatim>\<open>id\<close> is \<^verbatim>\<open>NaN\<close> or an infinity
  (the ids of the items are integers).
\<close>

definition findItem :: "world \<Rightarrow> number \<Rightarrow> item option" where
  "findItem w i =
     (case i of Finite n \<Rightarrow> find (\<lambda>it. item_id it = n) (inventory w) | _ \<Rightarrow> None)"

definition baseUrl :: "request \<Rightarrow> string" where
  "baseUrl req = protocol req @ ''://'' @ host req"

definition itemToDTO :: "request \<Rightarrow> item \<Rightarrow> dto" where
  "itemToDTO req it =
     \<lparr>dto_id = item_id it,
      dto_inventory_name = inventory_name it,
      dto_description = description it,
      photo_url = (if truthy (photoFilename it) then Some (PhotoUrl (baseUrl req) (item_id it))
                   else None)\<rparr>"

section \<open>Multer\<close>

definition stored_filename :: "nat \<Rightarrow> string \<Rightarrow> string" where
  "stored_filename t orig = ''photo_'' @ show_nat t @ ''_'' @ orig"

text \<open>
  \<^verbatim>\<open>upload.single('photo')\<close> runs before the handler: when the body has a photo part it
  writes the file into the cache directory and sets \<^verbatim>\<open>req.file\<close>. The result is
  \<^verbatim>\<open>req.file.filename\<close>, or \<open>None\<close> when \<^verbatim>\<open>req.file\<close> is undefined.
\<close>

definition upload_single :: "world \<Rightarrow> request \<Rightarrow> string option \<times> world" where
  "upload_single w req =
     (case photo_part req of
        None \<Rightarrow> (None, w)
      | Some u \<Rightarrow>
          (let name = stored_filename (now req) (originalname u)
           in (Some name, w\<lparr>files := (files w)(name \<mapsto> content u)\<rparr>)))"

text \<open>
  Multer sets \<^verbatim>\<open>req.body\<close> to an object for every multipart request, also when it
  has no text field, and leaves \<^verbatim>\<open>req.body\<close> as it is otherwise. A request with a
  photo part is multipart.
\<close>

definition no_fields :: fields where
  "no_fields =
     \<lparr>body_inventory_name = None, body_description = None, body_id = None,
      body_has_photo = None\<rparr>"

definition multer_body :: "request \<Rightarrow> fields option" where
  "multer_body req =
     (case photo_part req of
        None \<Rightarrow> body req
      | Some u \<Rightarrow> (case body req of None \<Rightarrow> Some no_fields | Some b \<Rightarrow> Some b))"

section \<open>Handlers\<close>

text \<open>
  Reading a field of \<^verbatim>\<open>req.body\<close> throws a \<^verbatim>\<open>TypeError\<close> when \<^verbatim>\<open>req.body\<close> is
  undefined; in the handlers this is the case \<open>None\<close> of the body.
\<close>

definition register :: "world \<Rightarrow> request \<Rightarrow> response \<times> world" where
  "register w0 req =
     (let (file, w) = upload_single w0 req in
      case multer_body req of
        None \<Rightarrow> (Uncaught TypeError, w)
      | Some b \<Rightarrow>
          (case body_inventory_name b of
             None \<Rightarrow> (Json 400 (ErrorBody ''inventory_name is required''), w)
           | Some name \<Rightarrow>
               if name = [] \<or> trim name = []
               then (Json 400 (ErrorBody ''inventory_name is required''), w)
               else
                 (let newItem =
                        \<lparr>item_id = nextId w,
                         inventory_name = trim name,
                         description = (case body_description b of None \<Rightarrow> [] | Some d \<Rightarrow> d),
                         photoFilename = file\<rparr>;
                      w1 = w\<lparr>nextId := round_double (nextId w + 1)\<rparr>;
                      w2 = w1\<lparr>inventory := inventory w1 @ [newItem]\<rparr>;
                      w3 = saveInventory (inventory w2) w2
                  in (Json 201 (ItemBody (itemToDTO req newItem)), w3))))"

definition method_not_allowed :: "world \<Rightarrow> response \<times> world" where
  "method_not_allowed w = (Json 405 (ErrorBody ''Method Not Allowed''), w)"

definition list_inventory :: "world \<Rightarrow> request \<Rightarrow> response \<times> world" where
  "list_inventory w req = (Json 200 (ListBody (map (itemToDTO req) (inventory w))), w)"

definition get_item :: "world \<Rightarrow> request \<Rightarrow> string \<Rightarrow> response \<times> world" where
  "get_item w req idp =
     (case findItem w (parseInt idp) of
        None \<Rightarrow> (Json 404 (ErrorBody ''Item not found''), w)
      | Some it \<Rightarrow> (Json 200 (ItemBody (itemToDTO req it)), w))"

definition assign_fields :: "fields \<Rightarrow> item \<Rightarrow> item" where
  "assign_fields b it =
     (let it1 = (case body_inventory_name b of
                   None \<Rightarrow> it
                 | Some n \<Rightarrow> it\<lparr>inventory_name := n\<rparr>)
      in (case body_description b of
            None \<Rightarrow> it1
          | Some d \<Rightarrow> it1\<lparr>description := d\<rparr>))"

definition update_item :: "world \<Rightarrow> request \<Rightarrow> string \<Rightarrow> response \<times> world" where
  "update_item w req idp =
     (case findItem w (parseInt idp) of
        None \<Rightarrow> (Json 404 (ErrorBody ''Item not found''), w)
      | Some it \<Rightarrow>
          (case body req of
             None \<Rightarrow> (Uncaught TypeError, w)
           | Some b \<Rightarrow>
               (let it' = assign_fields b it;
                    w1 = w\<lparr>inventory :=
                            update_first (\<lambda>x. item_id x = item_id it) (assign_fields b)
                              (inventory w)\<rparr>;
                    w2 = saveInventory (inventory w1) w1
                in (Json 200 (ItemBody (itemToDTO req it')), w2))))"

definition unlink_photo :: "string option \<Rightarrow> world \<Rightarrow> world" where
  "unlink_photo ref w =
     (case ref of
        None \<Rightarrow> w
      | Some name \<Rightarrow>
          if name \<noteq> [] \<and> files w name \<noteq> None then w\<lparr>files := (files w)(name := None)\<rparr>
          else w)"

definition delete_item :: "world \<Rightarrow> request \<Rightarrow> string \<Rightarrow> response \<times> world" where
  "delete_item w req idp =
     (case (case parseInt idp of
              Finite n \<Rightarrow> findIndex (\<lambda>it. item_id it = n) (inventory w)
            | _ \<Rightarrow> None) of
        None \<Rightarrow> (Json 404 (ErrorBody ''Item not found''), w)
      | Some index \<Rightarrow>
          (let removed = inventory w ! index;
               w1 = w\<lparr>inventory := take index (inventory w) @ drop (Suc index) (inventory w)\<rparr>;
               w2 = saveInventory (inventory w1) w1;
               w3 = unlink_photo (photoFilename removed) w2
           in (Json 200 (MessageBody ''Item deleted''), w3)))"

definition photo_path_of :: "revision \<Rightarrow> options \<Rightarrow> string \<Rightarrow> file_path" where
  "photo_path_of rv opts name =
     (case rv of Base \<Rightarrow> path_join opts name | WithSwagger \<Rightarrow> path_resolve opts name)"

definition get_photo :: "revision \<Rightarrow> options \<Rightarrow> world \<Rightarrow> request \<Rightarrow> string \<Rightarrow> response \<times> world" where
  "get_photo rv opts w req idp =
     (case findItem w (parseInt idp) of
        None \<Rightarrow> (Json 404 (ErrorBody ''Photo not found''), w)
      | Some it \<Rightarrow>
          if \<not> truthy (photoFilename it) then (Json 404 (ErrorBody ''Photo not found''), w)
          else
            (let photoPath = photo_path_of rv opts (the (photoFilename it))
             in case files w (stored photoPath) of
                  None \<Rightarrow> (Json 404 (ErrorBody ''Photo file not found''), w)
                | Some b \<Rightarrow> (sendFile 200 ''image/jpeg'' photoPath (Some b), w)))"

definition put_photo :: "world \<Rightarrow> request \<Rightarrow> string \<Rightarrow> response \<times> world" where
  "put_photo w0 req idp =
     (let (file, w) = upload_single w0 req in
      case findItem w (parseInt idp) of
        None \<Rightarrow> (Json 404 (ErrorBody ''Item not found''), w)
      | Some it \<Rightarrow>
          (case file of
             None \<Rightarrow> (Json 400 (ErrorBody ''photo is required''), w)
           | Some name \<Rightarrow>
               (let it' = it\<lparr>photoFilename := Some name\<rparr>;
                    w1 = w\<lparr>inventory :=
                            update_first (\<lambda>x. item_id x = item_id it)
                              (\<lambda>x. x\<lparr>photoFilename := Some name\<rparr>) (inventory w)\<rparr>;
                    w2 = saveInventory (inventory w1) w1
                in (Json 200 (ItemBody (itemToDTO req it')), w2))))"

text \<open>
  \<^verbatim>\<open>Number.isNaN\<close> rejects \<^verbatim>\<open>NaN\<close> only; an infinite id goes on to the lookup, which
  finds nothing.
\<close>

definition search :: "world \<Rightarrow> request \<Rightarrow> response \<times> world" where
  "search w req =
     (case body req of
        None \<Rightarrow> (Uncaught TypeError, w)
      | Some b \<Rightarrow>
          (let n = parseInt (to_js_string (body_id b)) in
           if n = NaN then (Json 400 (ErrorBody ''Invalid id''), w)
           else
             (case findItem w n of
                None \<Rightarrow> (Json 404 (ErrorBody ''Item not found''), w)
              | Some it \<Rightarrow>
                  (let includePhoto = (body_has_photo b = Some ''on'')
                   in (Json 200 (SearchBody
                         \<lparr>sr_id = item_id it,
                          sr_inventory_name = inventory_name it,
                          sr_description = description it,
                          has_photo = truthy (photoFilename it),
                          sr_photo_url =
                            (if includePhoto \<and> truthy (photoFilename it)
                             then Some (PhotoUrl (baseUrl req) (item_id it))
                             else None)\<rparr>), w)))))"

text \<open>
  The two HTML forms: \<^verbatim>\<open>res.sendFile(path.join(__dirname, name))\<close>. The path is absolute;
  the content type follows from the extension (its charset parameter is left out).
\<close>

definition send_form :: "options \<Rightarrow> world \<Rightarrow> string \<Rightarrow> response \<times> world" where
  "send_form opts w name =
     (sendFile 200 ''text/html''
        (FilePath True (script_hidden opts \<or> dot_name name) name) (script_files opts name), w)"

section \<open>Routing\<close>

text \<open>
  The routes in the order the script registers them. The path of a request is the list
  of its segments, without the query string and a trailing slash. Express compares the
  literal segments of a route without regard to the case of the letters A to Z
  (\<open>matches\<close>); a route parameter \<^verbatim>\<open>:id\<close> matches one non-empty segment. No two
  patterns match the same path, so the order of registration only matters between the
  handlers of one path.
\<close>

definition lower :: "char \<Rightarrow> char" where
  "lower c =
     (case map_of (zip ''ABCDEFGHIJKLMNOPQRSTUVWXYZ'' ''abcdefghijklmnopqrstuvwxyz'') c of
        None \<Rightarrow> c
      | Some d \<Rightarrow> d)"

definition matches :: "string \<Rightarrow> string \<Rightarrow> bool" where
  "matches literal seg = (map lower seg = map lower literal)"

datatype route =
    RegisterForm
  | SearchForm
  | Docs
  | RegisterRoute
  | InventoryRoute
  | ItemRoute string
  | PhotoRoute string
  | SearchRoute
  | NoRoute

definition route_of :: "revision \<Rightarrow> string list \<Rightarrow> route" where
  "route_of rv p =
     (case p of
        [] \<Rightarrow> NoRoute
      | [a] \<Rightarrow>
          if matches ''RegisterForm.html'' a then RegisterForm
          else if matches ''SearchForm.html'' a then SearchForm
          else if rv = WithSwagger \<and> matches ''docs'' a then Docs
          else if matches ''register'' a then RegisterRoute
          else if matches ''inventory'' a then InventoryRoute
          else if matches ''search'' a then SearchRoute
          else NoRoute
      | [a, i] \<Rightarrow>
          if rv = WithSwagger \<and> matches ''docs'' a then Docs
          else if matches ''inventory'' a \<and> i \<noteq> [] then ItemRoute i
          else NoRoute
      | [a, i, c] \<Rightarrow>
          if rv = WithSwagger \<and> matches ''docs'' a then Docs
          else if matches ''inventory'' a \<and> i \<noteq> [] \<and> matches ''photo'' c then PhotoRoute i
          else NoRoute
      | a # _ \<Rightarrow> if rv = WithSwagger \<and> matches ''docs'' a then Docs else NoRoute)"

text \<open>
  A route registered with \<^verbatim>\<open>app.get\<close> also answers HEAD requests when the path has no
  \<^verbatim>\<open>app.head\<close> route (Express sends the same status and headers without the body).
\<close>

definition get_route_handles :: "http_method \<Rightarrow> bool" where
  "get_route_handles m = (m = GET \<or> m = HEAD)"

definition not_found :: "world \<Rightarrow> response \<times> world" where
  "not_found w = (Json 404 (ErrorBody ''Not Found''), w)"

definition app :: "revision \<Rightarrow> options \<Rightarrow> world \<Rightarrow> request \<Rightarrow> response \<times> world" where
  "app rv opts w req =
     (let m = req_method req in
      case route_of rv (path req) of
        RegisterForm \<Rightarrow>
          if get_route_handles m then send_form opts w ''RegisterForm.html'' else not_found w
      | SearchForm \<Rightarrow>
          if get_route_handles m then send_form opts w ''SearchForm.html'' else not_found w
      | Docs \<Rightarrow> (SwaggerUi, w)
      | RegisterRoute \<Rightarrow>
          if m = POST then register w req else method_not_allowed w
      | InventoryRoute \<Rightarrow>
          if get_route_handles m then list_inventory w req else method_not_allowed w
      | ItemRoute i \<Rightarrow>
          if get_route_handles m then get_item w req i
          else if m = PUT then update_item w req i
          else if m = DELETE then delete_item w req i
          else method_not_allowed w
      | PhotoRoute i \<Rightarrow>
          if get_route_handles m then get_photo rv opts w req i
          else if m = PUT then put_photo w req i
          else method_not_allowed w
      | SearchRoute \<Rightarrow>
          if m = POST then search w req else method_not_allowed w
      | NoRoute \<Rightarrow> not_found w)"

text \<open>The process serving a sequence of requests, one after the other.\<close>

fun serve :: "revision \<Rightarrow> options \<Rightarrow> world \<Rightarrow> request list \<Rightarrow> world" where
  "serve rv opts w [] = w"
| "serve rv opts w (r # rs) = serve rv opts (snd (app rv opts w r)) rs"

section \<open>Notions of the specification\<close>

text \<open>A name that is missing, empty or made of white space only.\<close>

definition blank_name :: "string option \<Rightarrow> bool" where
  "blank_name v = (case v of None \<Rightarrow> True | Some s \<Rightarrow> list_all is_white_space s)"

text \<open>The id the data model describes: the largest existing id plus one, 1 for an empty store.\<close>

definition spec_next_id :: "item list \<Rightarrow> int" where
  "spec_next_id xs = (if xs = [] then 1 else Max (set (map item_id xs)) + 1)"

text \<open>A register request that passes the validation of the name.\<close>

definition creates :: "revision \<Rightarrow> request \<Rightarrow> bool" where
  "creates rv req =
     (route_of rv (path req) = RegisterRoute \<and> req_method req = POST \<and>
      (case multer_body req of None \<Rightarrow> False | Some b \<Rightarrow> \<not> blank_name (body_inventory_name b)))"

text \<open>Every id in the store is below the counter.\<close>

definition ids_below :: "world \<Rightarrow> bool" where
  "ids_below w = list_all (\<lambda>it. item_id it < nextId w) (inventory w)"

text \<open>
  The item the specification describes after an update: a field that the body supplies
  is replaced by the supplied value, an omitted field keeps its value, and the id and
  the photo reference are those of the item before.
\<close>

definition updated_item :: "fields \<Rightarrow> item \<Rightarrow> item" where
  "updated_item b it =
     \<lparr>item_id = item_id it,
      inventory_name =
        (case body_inventory_name b of None \<Rightarrow> inventory_name it | Some n \<Rightarrow> n),
      description = (case body_description b of None \<Rightarrow> description it | Some d \<Rightarrow> d),
      photoFilename = photoFilename it\<rparr>"

text \<open>
  A numeric field: a decimal integer literal, that is an optional sign followed by one
  or more decimal digits and nothing else.
\<close>

definition numeric :: "string \<Rightarrow> bool" where
  "numeric s =
     (case s of
        [] \<Rightarrow> False
      | c # r \<Rightarrow>
          if c = CHR ''-'' \<or> c = CHR ''+'' then r \<noteq> [] \<and> list_all is_digit r
          else list_all is_digit s)"

text \<open>The decimal numeral of an integer.\<close>

definition show_int :: "int \<Rightarrow> string" where
  "show_int i = (if i < 0 then CHR ''-'' # show_nat (nat (- i)) else show_nat (nat i))"

text \<open>
  The paths of the route table of the specification, read as Express reads them
  (without regard to the case of letters), and the methods the table lists for each.
\<close>

definition recognized_path :: "string list \<Rightarrow> bool" where
  "recognized_path p =
     (case p of
        [a] \<Rightarrow> matches ''register'' a \<or> matches ''inventory'' a \<or> matches ''search'' a
      | [a, i] \<Rightarrow> matches ''inventory'' a \<and> i \<noteq> []
      | [a, i, c] \<Rightarrow> matches ''inventory'' a \<and> i \<noteq> [] \<and> matches ''photo'' c
      | _ \<Rightarrow> False)"

definition listed_methods :: "string list \<Rightarrow> http_method list" where
  "listed_methods p =
     (case p of
        [a] \<Rightarrow> if matches ''inventory'' a then [GET] else [POST]
      | [a, i] \<Rightarrow> [GET, PUT, DELETE]
      | [a, i, c] \<Rightarrow> [GET, PUT]
      | _ \<Rightarrow> [])"

text \<open>The paths that the script answers although the route table does not list them.\<close>

definition form_path :: "string list \<Rightarrow> string option" where
  "form_path p =
     (case p of
        [a] \<Rightarrow>
          if matches ''RegisterForm.html'' a then Some ''RegisterForm.html''
          else if matches ''SearchForm.html'' a then Some ''SearchForm.html''
          else None
      | _ \<Rightarrow> None)"

definition under_docs :: "string list \<Rightarrow> bool" where
  "under_docs p = (case p of [] \<Rightarrow> False | a # _ \<Rightarrow> matches ''docs'' a)"

section \<open>Example requests\<close>

definition relative_cache :: options where
  "relative_cache =
     \<lparr>cache = ''cache'', cache_hidden = False, script_files = Map.empty, script_hidden = False\<rparr>"

definition with_form :: options where
  "with_form = relative_cache\<lparr>script_files := [''RegisterForm.html'' \<mapsto> ''<form>'']\<rparr>"

definition plain_request :: request where
  "plain_request =
     \<lparr>req_method = GET, path = [], protocol = ''http'', host = ''localhost:3000'',
      body = None, photo_part = None, now = 0\<rparr>"

definition register_request :: "string \<Rightarrow> request" where
  "register_request name =
     plain_request\<lparr>req_method := POST, path := [''register''],
       body := Some (no_fields\<lparr>body_inventory_name := Some name\<rparr>)\<rparr>"

definition update_request :: "string \<Rightarrow> string option \<Rightarrow> string option \<Rightarrow> request" where
  "update_request i name descr =
     plain_request\<lparr>req_method := PUT, path := [''inventory'', i],
       body := Some (no_fields\<lparr>body_inventory_name := name, body_description := descr\<rparr>)\<rparr>"

definition delete_request :: "string \<Rightarrow> request" where
  "delete_request i = plain_request\<lparr>req_method := DELETE, path := [''inventory'', i]\<rparr>"

definition get_request :: "string \<Rightarrow> request" where
  "get_request i = plain_request\<lparr>path := [''inventory'', i]\<rparr>"

definition drill_photo :: upload where
  "drill_photo = \<lparr>originalname = ''drill.jpg'', content = ''JFIF''\<rparr>"

definition register_photo_request :: "string \<Rightarrow> request" where
  "register_photo_request name =
     (register_request name)\<lparr>photo_part := Some drill_photo, now := 1730505600000\<rparr>"

definition photo_request :: "string \<Rightarrow> request" where
  "photo_request i = plain_request\<lparr>path := [''inventory'', i, ''photo'']\<rparr>"

definition put_photo_request :: "string \<Rightarrow> request" where
  "put_photo_request i =
     plain_request\<lparr>req_method := PUT, path := [''inventory'', i, ''photo''],
       photo_part := Some drill_photo, now := 1730505600999\<rparr>"

definition search_request :: "string option \<Rightarrow> string option \<Rightarrow> request" where
  "search_request i flag =
     plain_request\<lparr>req_method := POST, path := [''search''],
       body := Some (no_fields\<lparr>body_id := i, body_has_photo := flag\<rparr>)\<rparr>"

text \<open>
  The service started on an empty cache directory, after two registrations and the
  deletion of the second item.
\<close>

definition after_delete_world :: world where
  "after_delete_world =
     serve Base relative_cache (boot Absent Map.empty)
       [register_request ''Drill'', register_request ''Saw'', delete_request ''2'']"

text \<open>The earlier revision, started on an empty cache directory, after one registration with a photo.\<close>

definition drill_world :: world where
  "drill_world =
     serve Base relative_cache (boot Absent Map.empty) [register_photo_request ''Drill'']"

text \<open>A persisted file whose only item has the id \<open>2 ^ 53\<close>, and the service started on it.\<close>

definition big_item :: item where
  "big_item =
     \<lparr>item_id = 9007199254740992, inventory_name = ''Anvil'', description = [],
      photoFilename = None\<rparr>"

definition big_world :: world where
  "big_world = boot (Holds [big_item]) Map.empty"

text \<open>A persisted file in which two items have the id 1, and the service started on it.\<close>

definition twin_a :: item where
  "twin_a = \<lparr>item_id = 1, inventory_name = ''Drill'', description = [], photoFilename = None\<rparr>"

definition twin_b :: item where
  "twin_b = \<lparr>item_id = 1, inventory_name = ''Saw'', description = [], photoFilename = None\<rparr>"

definition twin_world :: world where
  "twin_world = boot (Holds [twin_a, twin_b]) Map.empty"

section \<open>Rounding to a double\<close>

lemma exponent_small: "m < 2 ^ 53 \<Longrightarrow> exponent m = 0"
  by (simp add: exponent.simps [of m])

lemma exponent_2_53: "exponent 9007199254740992 = 1"
  by (simp add: exponent.simps [of 9007199254740992] exponent.simps [of 4503599627370496])

lemma exponent_2_53_1: "exponent 9007199254740993 = 1"
  by (simp add: exponent.simps [of 9007199254740993] exponent.simps [of 4503599627370496])

lemma round_double_small: "\<bar>n\<bar> < 2 ^ 53 \<Longrightarrow> round_double n = n"
  by (simp add: round_double_def exponent_small Let_def mult_sgn_abs)

lemma round_double_2_53:
  "round_double 9007199254740992 = 9007199254740992"
  "round_double (- 9007199254740992) = - 9007199254740992"
  by (simp_all add: round_double_def exponent_2_53 Let_def)

text \<open>The first integer that is not a double is rounded to its even neighbour.\<close>

lemma round_double_2_53_1: "round_double 9007199254740993 = 9007199254740992"
  by (simp add: round_double_def exponent_2_53_1 Let_def)

lemma round_double_exact: "\<bar>n\<bar> \<le> 2 ^ 53 \<Longrightarrow> round_double n = n"
proof -
  assume "\<bar>n\<bar> \<le> 2 ^ 53"
  then consider "\<bar>n\<bar> < 2 ^ 53" | "n = 9007199254740992" | "n = - 9007199254740992"
    by (cases "\<bar>n\<bar> < 2 ^ 53") (simp_all, linarith)
  then show ?thesis
    by cases (simp_all add: round_double_small round_double_2_53)
qed

lemma to_number_exact: "\<bar>n\<bar> \<le> 2 ^ 53 \<Longrightarrow> to_number n = Finite n"
proof -
  assume a: "\<bar>n\<bar> \<le> 2 ^ 53"
  have "(2::int) ^ 53 < 2 ^ 1024" by (rule power_strict_increasing) simp_all
  with a have "\<not> 2 ^ 1024 \<le> \<bar>n\<bar>" by linarith
  with a show ?thesis by (simp only: to_number_def round_double_exact if_False)
qed

section \<open>White space\<close>

lemma trim_empty_iff: "trim s = [] \<longleftrightarrow> list_all is_white_space s"
proof -
  have "trim s = [] \<longleftrightarrow> (\<forall>c\<in>set (dropWhile is_white_space s). is_white_space c)"
    by (simp add: trim_def dropWhile_eq_Nil_conv)
  also have "\<dots> \<longleftrightarrow> dropWhile is_white_space s = []"
    by (metis hd_dropWhile list.set_sel(1) empty_iff list.set(1))
  also have "\<dots> \<longleftrightarrow> list_all is_white_space s"
    by (simp add: dropWhile_eq_Nil_conv list_all_iff)
  finally show ?thesis .
qed

lemma blank_name_iff:
  "blank_name v \<longleftrightarrow> (case v of None \<Rightarrow> True | Some s \<Rightarrow> s = [] \<or> trim s = [])"
  by (auto simp: blank_name_def trim_empty_iff split: option.splits)

section \<open>Matching of route literals\<close>

lemma matches_same [simp]: "matches s s"
  by (simp add: matches_def)

lemma matches_length: "matches literal seg \<Longrightarrow> length seg = length literal"
  by (metis matches_def length_map)

lemma matches_Nil [simp]: "matches literal [] \<longleftrightarrow> literal = []"
  by (auto simp: matches_def)

text \<open>The literals of the routes have different lengths, so a segment matches at most one.\<close>

lemma matches_exclusive:
  "matches ''register'' a \<Longrightarrow> \<not> matches ''RegisterForm.html'' a \<and> \<not> matches ''SearchForm.html'' a \<and>
     \<not> matches ''docs'' a \<and> \<not> matches ''inventory'' a \<and> \<not> matches ''search'' a"
  "matches ''inventory'' a \<Longrightarrow> \<not> matches ''RegisterForm.html'' a \<and> \<not> matches ''SearchForm.html'' a \<and>
     \<not> matches ''docs'' a \<and> \<not> matches ''register'' a \<and> \<not> matches ''search'' a"
  "matches ''search'' a \<Longrightarrow> \<not> matches ''RegisterForm.html'' a \<and> \<not> matches ''SearchForm.html'' a \<and>
     \<not> matches ''docs'' a \<and> \<not> matches ''register'' a \<and> \<not> matches ''inventory'' a"
  "matches ''RegisterForm.html'' a \<Longrightarrow> \<not> matches ''SearchForm.html'' a \<and>
     \<not> matches ''docs'' a \<and> \<not> matches ''register'' a \<and> \<not> matches ''inventory'' a \<and>
     \<not> matches ''search'' a"
  "matches ''SearchForm.html'' a \<Longrightarrow> \<not> matches ''RegisterForm.html'' a \<and>
     \<not> matches ''docs'' a \<and> \<not> matches ''register'' a \<and> \<not> matches ''inventory'' a \<and>
     \<not> matches ''search'' a"
  "matches ''docs'' a \<Longrightarrow> \<not> matches ''RegisterForm.html'' a \<and> \<not> matches ''SearchForm.html'' a \<and>
     \<not> matches ''register'' a \<and> \<not> matches ''inventory'' a \<and> \<not> matches ''search'' a"
  by (auto dest!: matches_length)

lemma route_of_register [simp]: "route_of rv [''register''] = RegisterRoute"
  by (simp add: route_of_def matches_exclusive)

lemma route_of_inventory [simp]: "route_of rv [''inventory''] = InventoryRoute"
  by (simp add: route_of_def matches_exclusive)

lemma route_of_search [simp]: "route_of rv [''search''] = SearchRoute"
  by (simp add: route_of_def matches_exclusive)

lemma route_of_item [simp]: "i \<noteq> [] \<Longrightarrow> route_of rv [''inventory'', i] = ItemRoute i"
  by (simp add: route_of_def matches_exclusive)

lemma route_of_photo [simp]: "i \<noteq> [] \<Longrightarrow> route_of rv [''inventory'', i, ''photo''] = PhotoRoute i"
  by (simp add: route_of_def matches_exclusive)

lemma route_of_ItemRoute:
  "route_of rv p = ItemRoute i \<Longrightarrow> (\<exists>a. p = [a, i] \<and> matches ''inventory'' a) \<and> i \<noteq> []"
  by (auto simp: route_of_def split: list.splits if_splits)

section \<open>The start value of the counter\<close>

lemma foldl_max_lower: "a \<le> foldl (\<lambda>mx it. max mx (item_id it)) a xs"
proof (induction xs arbitrary: a)
  case Nil
  show ?case by simp
next
  case (Cons x xs)
  have "a \<le> max a (item_id x)" by simp
  also have "\<dots> \<le> foldl (\<lambda>mx it. max mx (item_id it)) (max a (item_id x)) xs"
    by (rule Cons.IH)
  finally show ?case by simp
qed

lemma foldl_max_upper:
  "it \<in> set xs \<Longrightarrow> item_id it \<le> foldl (\<lambda>mx it. max mx (item_id it)) a xs"
proof (induction xs arbitrary: a)
  case Nil
  then show ?case by simp
next
  case (Cons x xs)
  show ?case
  proof (cases "it = x")
    case True
    have "item_id x \<le> max a (item_id x)" by simp
    also have "\<dots> \<le> foldl (\<lambda>mx it. max mx (item_id it)) (max a (item_id x)) xs"
      by (rule foldl_max_lower)
    finally show ?thesis using True by simp
  next
    case False
    with Cons.prems have "it \<in> set xs" by simp
    then show ?thesis using Cons.IH by simp
  qed
qed

lemma foldl_max_mem:
  "foldl (\<lambda>mx it. max mx (item_id it)) a xs = a \<or>
   foldl (\<lambda>mx it. max mx (item_id it)) a xs \<in> set (map item_id xs)"
proof (induction xs arbitrary: a)
  case Nil
  show ?case by simp
next
  case (Cons x xs)
  from Cons.IH [of "max a (item_id x)"] show ?case by (auto simp: max_def split: if_splits)
qed

text \<open>
  When the persisted ids are below \<open>2 ^ 53\<close> the start value is computed exactly: one
  more than the largest of 0 and the ids, or 1 for an empty store.
\<close>

lemma initial_nextId_exact:
  assumes "\<forall>it\<in>set xs. item_id it < 2 ^ 53"
  shows "initial_nextId xs =
           (if xs = [] then 1 else foldl (\<lambda>mx it. max mx (item_id it)) 0 xs + 1)"
proof -
  let ?m = "foldl (\<lambda>mx it. max mx (item_id it)) 0 xs"
  have "?m < 2 ^ 53" using foldl_max_mem [of 0 xs] assms by auto
  moreover have "0 \<le> ?m" by (rule foldl_max_lower)
  ultimately have "\<bar>?m + 1\<bar> \<le> 2 ^ 53" by simp
  then have "round_double (?m + 1) = ?m + 1" by (rule round_double_exact)
  then show ?thesis by (simp add: initial_nextId_def)
qed

lemma initial_nextId_above:
  assumes "\<forall>it\<in>set xs. item_id it < 2 ^ 53" and "it \<in> set xs"
  shows "item_id it < initial_nextId xs"
  using foldl_max_upper [OF assms(2), of 0] assms(2)
  by (auto simp: initial_nextId_exact [OF assms(1)])

lemma initial_nextId_pos:
  assumes "\<forall>it\<in>set xs. item_id it < 2 ^ 53"
  shows "1 \<le> initial_nextId xs"
  using foldl_max_lower [of 0 xs] by (simp add: initial_nextId_exact [OF assms])

lemma boot_ids_below:
  "\<forall>it\<in>set (loadInventory f). item_id it < 2 ^ 53 \<Longrightarrow> ids_below (boot f fs)"
  by (simp add: ids_below_def boot_def list_all_iff initial_nextId_above)

lemma boot_nextId_pos:
  "\<forall>it\<in>set (loadInventory f). item_id it < 2 ^ 53 \<Longrightarrow> 1 \<le> nextId (boot f fs)"
  by (simp add: boot_def initial_nextId_pos)

section \<open>What each handler does\<close>

lemma map_id_update_first:
  "(\<And>x. item_id (f x) = item_id x) \<Longrightarrow> map item_id (update_first P f xs) = map item_id xs"
  by (induction xs) simp_all

lemma item_id_assign_fields [simp]: "item_id (assign_fields b it) = item_id it"
  by (simp add: assign_fields_def split: option.splits)

lemma assign_fields_updated_item: "assign_fields b it = updated_item b it"
  by (simp add: assign_fields_def updated_item_def split: option.splits)

lemma upload_single_inventory [simp]:
  "inventory (snd (upload_single w req)) = inventory w"
  "nextId (snd (upload_single w req)) = nextId w"
  "inventory_file (snd (upload_single w req)) = inventory_file w"
  by (simp_all add: upload_single_def Let_def split: option.splits)

lemma multer_body_None: "multer_body req = None \<longleftrightarrow> body req = None \<and> photo_part req = None"
  by (simp add: multer_body_def split: option.splits)

lemma register_no_body:
  "multer_body req = None \<Longrightarrow> register w req = (Uncaught TypeError, w)"
proof -
  assume a: "multer_body req = None"
  then have "photo_part req = None" by (simp add: multer_body_None)
  with a show ?thesis by (simp add: register_def upload_single_def)
qed

lemma register_blank:
  assumes "multer_body req = Some b" and "blank_name (body_inventory_name b)"
  shows "register w req =
           (Json 400 (ErrorBody ''inventory_name is required''), snd (upload_single w req))"
  using assms
  by (auto simp: register_def blank_name_iff split: prod.splits option.splits)

lemma register_ok:
  assumes "multer_body req = Some b" and "\<not> blank_name (body_inventory_name b)"
  shows "register w req =
    (Json 201 (ItemBody (itemToDTO req
        \<lparr>item_id = nextId w,
         inventory_name = trim (the (body_inventory_name b)),
         description = (case body_description b of None \<Rightarrow> [] | Some d \<Rightarrow> d),
         photoFilename = fst (upload_single w req)\<rparr>)),
     (snd (upload_single w req))
       \<lparr>nextId := round_double (nextId w + 1),
        inventory := inventory w @
          [\<lparr>item_id = nextId w,
            inventory_name = trim (the (body_inventory_name b)),
            description = (case body_description b of None \<Rightarrow> [] | Some d \<Rightarrow> d),
            photoFilename = fst (upload_single w req)\<rparr>],
        inventory_file := Holds (inventory w @
          [\<lparr>item_id = nextId w,
            inventory_name = trim (the (body_inventory_name b)),
            description = (case body_description b of None \<Rightarrow> [] | Some d \<Rightarrow> d),
            photoFilename = fst (upload_single w req)\<rparr>])\<rparr>)"
  using assms
  by (cases "upload_single w req")
     (auto simp: register_def blank_name_iff saveInventory_def Let_def
        upload_single_def split: option.splits)

lemma findIndex_None: "findIndex P xs = None \<longleftrightarrow> find P xs = None"
  by (induction xs) auto

lemma findIndex_Some:
  "findIndex P xs = Some k \<Longrightarrow> k < length xs \<and> find P xs = Some (xs ! k) \<and> P (xs ! k)"
  by (induction xs arbitrary: k) (auto split: if_splits)

lemma find_Some_findIndex:
  "find P xs = Some x \<Longrightarrow> \<exists>k. findIndex P xs = Some k \<and> xs ! k = x \<and> k < length xs"
  by (induction xs) (auto split: if_splits)

lemma update_first_as_list_update:
  "findIndex P xs = Some k \<Longrightarrow> update_first P f xs = xs[k := f (xs ! k)]"
  by (induction xs arbitrary: k) (auto split: if_splits)

lemma find_list_update:
  "findIndex P xs = Some k \<Longrightarrow> P y \<Longrightarrow> find P (xs[k := y]) = Some y"
  by (induction xs arbitrary: k) (auto split: if_splits)

lemma find_None_iff_all: "find P xs = None \<longleftrightarrow> (\<forall>x\<in>set xs. \<not> P x)"
  by (induction xs) auto

lemma find_append_last:
  "\<forall>x\<in>set xs. \<not> P x \<Longrightarrow> P y \<Longrightarrow> find P (xs @ [y]) = Some y"
  by (induction xs) simp_all

lemma findItem_SomeD:
  "findItem w i = Some it \<Longrightarrow>
   i = Finite (item_id it) \<and> find (\<lambda>x. item_id x = item_id it) (inventory w) = Some it"
  by (cases i) (auto simp: findItem_def find_Some_iff)

lemma findItem_files_update [simp]: "findItem (w\<lparr>files := fs\<rparr>) i = findItem w i"
  by (cases i) (simp_all add: findItem_def)

lemma findItem_upload_single [simp]:
  "findItem (snd (upload_single w req)) i = findItem w i"
  by (cases i) (simp_all add: findItem_def)

lemma update_item_missing:
  "findItem w (parseInt idp) = None \<Longrightarrow>
   update_item w req idp = (Json 404 (ErrorBody ''Item not found''), w)"
  by (simp add: update_item_def)

lemma update_item_no_body:
  "findItem w (parseInt idp) = Some it \<Longrightarrow> body req = None \<Longrightarrow>
   update_item w req idp = (Uncaught TypeError, w)"
  by (simp add: update_item_def)

lemma update_item_found:
  "findItem w (parseInt idp) = Some it \<Longrightarrow> body req = Some b \<Longrightarrow>
   update_item w req idp =
     (Json 200 (ItemBody (itemToDTO req (assign_fields b it))),
      w\<lparr>inventory := update_first (\<lambda>x. item_id x = item_id it) (assign_fields b) (inventory w),
        inventory_file :=
          Holds (update_first (\<lambda>x. item_id x = item_id it) (assign_fields b) (inventory w))\<rparr>)"
  by (simp add: update_item_def saveInventory_def Let_def)

lemma get_item_world [simp]: "snd (get_item w req idp) = w"
  by (simp add: get_item_def split: option.splits)

lemma list_inventory_world [simp]: "snd (list_inventory w req) = w"
  by (simp add: list_inventory_def)

lemma search_world [simp]: "snd (search w req) = w"
  by (simp add: search_def Let_def split: option.splits)

lemma get_photo_world [simp]: "snd (get_photo rv opts w req idp) = w"
  by (simp add: get_photo_def Let_def split: option.splits)

lemma send_form_world [simp]: "snd (send_form opts w name) = w"
  by (simp add: send_form_def)

lemma method_not_allowed_world [simp]: "snd (method_not_allowed w) = w"
  by (simp add: method_not_allowed_def)

lemma not_found_world [simp]: "snd (not_found w) = w"
  by (simp add: not_found_def)

lemma put_photo_missing:
  "findItem w (parseInt idp) = None \<Longrightarrow>
   put_photo w req idp = (Json 404 (ErrorBody ''Item not found''), snd (upload_single w req))"
  by (cases "upload_single w req") (use findItem_upload_single [of w req] in \<open>simp add: put_photo_def\<close>)

lemma put_photo_no_file:
  "findItem w (parseInt idp) = Some it \<Longrightarrow> photo_part req = None \<Longrightarrow>
   put_photo w req idp = (Json 400 (ErrorBody ''photo is required''), w)"
  by (simp add: put_photo_def upload_single_def)

lemma put_photo_found:
  "findItem w (parseInt idp) = Some it \<Longrightarrow> photo_part req = Some u \<Longrightarrow>
   put_photo w req idp =
     (Json 200 (ItemBody (itemToDTO req
         (it\<lparr>photoFilename := Some (stored_filename (now req) (originalname u))\<rparr>))),
      w\<lparr>files := (files w)(stored_filename (now req) (originalname u) \<mapsto> content u),
        inventory := update_first (\<lambda>x. item_id x = item_id it)
           (\<lambda>x. x\<lparr>photoFilename := Some (stored_filename (now req) (originalname u))\<rparr>) (inventory w),
        inventory_file := Holds (update_first (\<lambda>x. item_id x = item_id it)
           (\<lambda>x. x\<lparr>photoFilename := Some (stored_filename (now req) (originalname u))\<rparr>) (inventory w))\<rparr>)"
  by (simp add: put_photo_def upload_single_def saveInventory_def Let_def)

lemma delete_item_missing:
  "findItem w (parseInt idp) = None \<Longrightarrow>
   delete_item w req idp = (Json 404 (ErrorBody ''Item not found''), w)"
proof (cases "parseInt idp")
  case (Finite n)
  assume "findItem w (parseInt idp) = None"
  with Finite have "findIndex (\<lambda>it. item_id it = n) (inventory w) = None"
    by (simp add: findItem_def findIndex_None)
  with Finite show ?thesis by (simp add: delete_item_def)
qed (simp_all add: delete_item_def)

lemma delete_item_found:
  assumes "parseInt idp = Finite n" and "findIndex (\<lambda>it. item_id it = n) (inventory w) = Some k"
  shows "delete_item w req idp =
     (Json 200 (MessageBody ''Item deleted''),
      unlink_photo (photoFilename (inventory w ! k))
        (w\<lparr>inventory := take k (inventory w) @ drop (Suc k) (inventory w),
           inventory_file := Holds (take k (inventory w) @ drop (Suc k) (inventory w))\<rparr>))"
  using assms by (simp add: delete_item_def saveInventory_def Let_def)

lemma unlink_photo_fields [simp]:
  "inventory (unlink_photo r w) = inventory w"
  "nextId (unlink_photo r w) = nextId w"
  "inventory_file (unlink_photo r w) = inventory_file w"
  by (simp_all add: unlink_photo_def split: option.splits)

lemma files_unlink_photo:
  "name \<noteq> [] \<Longrightarrow> files (unlink_photo (Some name) w) name = None"
  by (simp add: unlink_photo_def)

section \<open>Dispatch of the routes\<close>

lemma app_register:
  "req_method req = POST \<Longrightarrow> path req = [''register''] \<Longrightarrow> app rv opts w req = register w req"
  by (simp add: app_def)

lemma app_put_item:
  "req_method req = PUT \<Longrightarrow> path req = [''inventory'', i] \<Longrightarrow> i \<noteq> [] \<Longrightarrow>
   app rv opts w req = update_item w req i"
  by (simp add: app_def get_route_handles_def)

lemma app_delete_item:
  "req_method req = DELETE \<Longrightarrow> path req = [''inventory'', i] \<Longrightarrow> i \<noteq> [] \<Longrightarrow>
   app rv opts w req = delete_item w req i"
  by (simp add: app_def get_route_handles_def)

lemma app_get_item:
  "req_method req = GET \<Longrightarrow> path req = [''inventory'', i] \<Longrightarrow> i \<noteq> [] \<Longrightarrow>
   app rv opts w req = get_item w req i"
  by (simp add: app_def get_route_handles_def)

lemma app_get_photo:
  "req_method req = GET \<Longrightarrow> path req = [''inventory'', i, ''photo''] \<Longrightarrow> i \<noteq> [] \<Longrightarrow>
   app rv opts w req = get_photo rv opts w req i"
  by (simp add: app_def get_route_handles_def)

lemma app_put_photo:
  "req_method req = PUT \<Longrightarrow> path req = [''inventory'', i, ''photo''] \<Longrightarrow> i \<noteq> [] \<Longrightarrow>
   app rv opts w req = put_photo w req i"
  by (simp add: app_def get_route_handles_def)

lemma app_list_inventory:
  "req_method req = GET \<Longrightarrow> path req = [''inventory''] \<Longrightarrow>
   app rv opts w req = list_inventory w req"
  by (simp add: app_def get_route_handles_def)

lemma app_search:
  "req_method req = POST \<Longrightarrow> path req = [''search''] \<Longrightarrow> app rv opts w req = search w req"
  by (simp add: app_def)

section \<open>The counter and the ids of the store\<close>

lemma creates_register:
  "creates rv r \<Longrightarrow>
   app rv opts w r = register w r \<and>
   (\<exists>b. multer_body r = Some b \<and> \<not> blank_name (body_inventory_name b))"
  by (auto simp: creates_def app_def split: option.splits)

lemma app_creates:
  assumes "creates rv r"
  shows "\<exists>it. item_id it = nextId w \<and>
           fst (app rv opts w r) = Json 201 (ItemBody (itemToDTO r it)) \<and>
           inventory (snd (app rv opts w r)) = inventory w @ [it] \<and>
           nextId (snd (app rv opts w r)) = round_double (nextId w + 1)"
proof -
  from creates_register [OF assms] obtain b where "app rv opts w r = register w r"
    and "multer_body r = Some b" and "\<not> blank_name (body_inventory_name b)" by auto
  then show ?thesis by (simp add: register_ok)
qed

lemma register_nextId_unchanged:
  "multer_body req = None \<or> (\<exists>b. multer_body req = Some b \<and> blank_name (body_inventory_name b)) \<Longrightarrow>
   nextId (snd (register w req)) = nextId w \<and> inventory (snd (register w req)) = inventory w \<and>
   inventory_file (snd (register w req)) = inventory_file w"
  by (auto simp: register_no_body register_blank)

lemma not_creates_register:
  assumes "\<not> creates rv r" and "route_of rv (path r) = RegisterRoute" and "req_method r = POST"
  shows "multer_body r = None \<or> (\<exists>b. multer_body r = Some b \<and> blank_name (body_inventory_name b))"
  using assms by (cases "multer_body r") (auto simp: creates_def)

lemma update_item_nextId [simp]: "nextId (snd (update_item w req i)) = nextId w"
  by (simp add: update_item_def saveInventory_def Let_def split: option.splits)

lemma put_photo_nextId [simp]: "nextId (snd (put_photo w req i)) = nextId w"
proof (cases "findItem w (parseInt i)")
  case None
  then show ?thesis by (simp add: put_photo_missing)
next
  case (Some it)
  then show ?thesis
    by (cases "photo_part req") (simp_all add: put_photo_no_file put_photo_found)
qed

lemma delete_item_nextId [simp]: "nextId (snd (delete_item w req i)) = nextId w"
  by (simp add: delete_item_def saveInventory_def Let_def split: option.splits number.splits)

lemma app_nextId:
  "nextId (snd (app rv opts w r)) = (if creates rv r then round_double (nextId w + 1) else nextId w)"
proof (cases "creates rv r")
  case True
  with app_creates [OF True, of w opts] show ?thesis by auto
next
  case False
  show ?thesis
  proof (cases "route_of rv (path r) = RegisterRoute \<and> req_method r = POST")
    case True
    with False not_creates_register [of rv r] register_nextId_unchanged [of r w]
    show ?thesis by (simp add: app_def)
  next
    case no: False
    with False show ?thesis by (auto simp: app_def Let_def split: route.splits)
  qed
qed

text \<open>As long as the counter does not pass \<open>2 ^ 53\<close> it counts the registrations.\<close>

lemma serve_nextId:
  assumes "0 \<le> nextId w" and "nextId w + int (length (filter (creates rv) rs)) \<le> 2 ^ 53"
  shows "nextId (serve rv opts w rs) = nextId w + int (length (filter (creates rv) rs))"
  using assms
proof (induction rs arbitrary: w)
  case Nil
  then show ?case by simp
next
  case (Cons r rs)
  show ?case
  proof (cases "creates rv r")
    case True
    with Cons.prems have "\<bar>nextId w + 1\<bar> \<le> 2 ^ 53" by simp
    then have step: "nextId (snd (app rv opts w r)) = nextId w + 1"
      by (simp add: app_nextId True round_double_exact)
    with Cons.prems True have "0 \<le> nextId (snd (app rv opts w r))"
      and "nextId (snd (app rv opts w r)) + int (length (filter (creates rv) rs)) \<le> 2 ^ 53"
      by simp_all
    from Cons.IH [OF this] step True show ?thesis by simp
  next
    case False
    then have step: "nextId (snd (app rv opts w r)) = nextId w" by (simp add: app_nextId)
    with Cons.prems False have "0 \<le> nextId (snd (app rv opts w r))"
      and "nextId (snd (app rv opts w r)) + int (length (filter (creates rv) rs)) \<le> 2 ^ 53"
      by simp_all
    from Cons.IH [OF this] step False show ?thesis by simp
  qed
qed

lemma serve_append: "serve rv opts w (rs @ rs') = serve rv opts (serve rv opts w rs) rs'"
  by (induction rs arbitrary: w) simp_all

lemma delete_item_subset:
  "set (inventory (snd (delete_item w req i))) \<subseteq> set (inventory w)"
  by (auto simp: delete_item_def saveInventory_def Let_def split: option.splits number.splits
      dest: in_set_takeD in_set_dropD)

lemma update_item_ids: "map item_id (inventory (snd (update_item w r i))) = map item_id (inventory w)"
  by (simp add: update_item_def saveInventory_def Let_def map_id_update_first split: option.splits)

lemma put_photo_ids: "map item_id (inventory (snd (put_photo w r i))) = map item_id (inventory w)"
proof (cases "findItem w (parseInt i)")
  case None
  then show ?thesis by (simp add: put_photo_missing)
next
  case (Some it)
  then show ?thesis
    by (cases "photo_part r")
       (simp_all add: put_photo_no_file put_photo_found map_id_update_first)
qed

lemma update_item_idset:
  "item_id ` set (inventory (snd (update_item w r i))) = item_id ` set (inventory w)"
  by (metis list.set_map update_item_ids)

lemma put_photo_idset:
  "item_id ` set (inventory (snd (put_photo w r i))) = item_id ` set (inventory w)"
  by (metis list.set_map put_photo_ids)

text \<open>Only a registration adds an id to the store, and only a delete request removes one.\<close>

lemma app_ids_subset:
  assumes "\<not> creates rv r"
  shows "set (map item_id (inventory (snd (app rv opts w r)))) \<subseteq> set (map item_id (inventory w))"
proof (cases "route_of rv (path r)")
  case RegisterRoute
  with assms not_creates_register [of rv r] register_nextId_unchanged [of r w]
  show ?thesis by (cases "req_method r = POST") (simp_all add: app_def)
next
  case (ItemRoute i)
  then show ?thesis
    using delete_item_subset [of w r i] by (auto simp: app_def Let_def update_item_idset)
next
  case (PhotoRoute i)
  then show ?thesis by (simp add: app_def Let_def put_photo_idset)
qed (simp_all add: app_def Let_def)

lemma app_ids_unchanged:
  assumes "req_method r \<noteq> DELETE" and "\<not> creates rv r"
  shows "map item_id (inventory (snd (app rv opts w r))) = map item_id (inventory w)"
proof (cases "route_of rv (path r)")
  case RegisterRoute
  with assms not_creates_register [of rv r] register_nextId_unchanged [of r w]
  show ?thesis by (cases "req_method r = POST") (simp_all add: app_def)
next
  case (ItemRoute i)
  with assms(1) show ?thesis by (simp add: app_def Let_def update_item_ids)
next
  case (PhotoRoute i)
  then show ?thesis by (simp add: app_def Let_def put_photo_ids)
qed (simp_all add: app_def Let_def)

lemma app_ids_below:
  assumes "ids_below w" and "creates rv r \<longrightarrow> 0 \<le> nextId w \<and> nextId w < 2 ^ 53"
  shows "ids_below (snd (app rv opts w r))"
proof (cases "creates rv r")
  case True
  with assms(2) have "\<bar>nextId w + 1\<bar> \<le> 2 ^ 53" by simp
  then have "round_double (nextId w + 1) = nextId w + 1" by (rule round_double_exact)
  from app_creates [OF True, of w opts] obtain it where "item_id it = nextId w"
    and "inventory (snd (app rv opts w r)) = inventory w @ [it]"
    and "nextId (snd (app rv opts w r)) = round_double (nextId w + 1)" by auto
  moreover have "item_id x < nextId w + 1" if "x \<in> set (inventory w)" for x
    using assms(1) that by (force simp: ids_below_def list_all_iff)
  ultimately show ?thesis
    using \<open>round_double (nextId w + 1) = nextId w + 1\<close>
    by (auto simp: ids_below_def list_all_iff)
next
  case False
  from app_ids_subset [OF False, of opts w] assms(1) show ?thesis
    by (auto simp: ids_below_def list_all_iff app_nextId False)
qed

lemma serve_ids_below:
  assumes "ids_below w" and "0 \<le> nextId w"
    and "nextId w + int (length (filter (creates rv) rs)) \<le> 2 ^ 53"
  shows "ids_below (serve rv opts w rs)"
  using assms
proof (induction rs arbitrary: w)
  case Nil
  then show ?case by simp
next
  case (Cons r rs)
  have below: "ids_below (snd (app rv opts w r))"
    using Cons.prems by (intro app_ids_below) auto
  show ?case
  proof (cases "creates rv r")
    case True
    with Cons.prems have "\<bar>nextId w + 1\<bar> \<le> 2 ^ 53" by simp
    then have step: "nextId (snd (app rv opts w r)) = nextId w + 1"
      by (simp add: app_nextId True round_double_exact)
    with Cons.prems True have "0 \<le> nextId (snd (app rv opts w r))"
      and "nextId (snd (app rv opts w r)) + int (length (filter (creates rv) rs)) \<le> 2 ^ 53"
      by simp_all
    from Cons.IH [OF below this] show ?thesis by simp
  next
    case False
    then have step: "nextId (snd (app rv opts w r)) = nextId w" by (simp add: app_nextId)
    with Cons.prems False have "0 \<le> nextId (snd (app rv opts w r))"
      and "nextId (snd (app rv opts w r)) + int (length (filter (creates rv) rs)) \<le> 2 ^ 53"
      by simp_all
    from Cons.IH [OF below this] show ?thesis by simp
  qed
qed

lemma register_created:
  "fst (register w r) = Json 201 b \<Longrightarrow> \<exists>d. b = ItemBody d \<and> dto_id d = nextId w"
proof (cases "multer_body r")
  case None
  assume "fst (register w r) = Json 201 b"
  with None show ?thesis by (simp add: register_no_body)
next
  case (Some fs)
  assume "fst (register w r) = Json 201 b"
  with Some show ?thesis
    by (cases "blank_name (body_inventory_name fs)")
       (auto simp: register_blank register_ok itemToDTO_def)
qed

lemma others_not_created:
  "fst (list_inventory w r) \<noteq> Json 201 b"
  "fst (get_item w r i) \<noteq> Json 201 b"
  "fst (update_item w r i) \<noteq> Json 201 b"
  "fst (delete_item w r i) \<noteq> Json 201 b"
  "fst (get_photo rv opts w r i) \<noteq> Json 201 b"
  "fst (put_photo w r i) \<noteq> Json 201 b"
  "fst (search w r) \<noteq> Json 201 b"
  "fst (method_not_allowed w) \<noteq> Json 201 b"
  "fst (not_found w) \<noteq> Json 201 b"
  "fst (send_form opts w name) \<noteq> Json 201 b"
  by (simp_all add: list_inventory_def get_item_def update_item_def delete_item_def
      get_photo_def put_photo_def search_def method_not_allowed_def not_found_def
      send_form_def sendFile_def Let_def split: option.splits prod.splits number.splits)

lemma app_created:
  assumes "fst (app rv opts w r) = Json 201 b"
  shows "\<exists>d. b = ItemBody d \<and> dto_id d = nextId w"
  using assms
  by (auto simp: app_def Let_def others_not_created
      split: route.splits if_splits dest: register_created)

section \<open>Evaluation of concrete runs\<close>

lemma char_of_digits:
  "char_of (48::nat) = CHR ''0''" "char_of (49::nat) = CHR ''1''" "char_of (50::nat) = CHR ''2''"
  "char_of (51::nat) = CHR ''3''" "char_of (52::nat) = CHR ''4''" "char_of (53::nat) = CHR ''5''"
  "char_of (54::nat) = CHR ''6''" "char_of (55::nat) = CHR ''7''" "char_of (56::nat) = CHR ''8''"
  "char_of (57::nat) = CHR ''9''"
  by code_simp+

lemma stored_drill_photo:
  "stored_filename 1730505600000 ''drill.jpg'' = ''photo_1730505600000_drill.jpg''"
  "stored_filename 1730505600999 ''drill.jpg'' = ''photo_1730505600999_drill.jpg''"
  by (simp_all add: stored_filename_def show_nat.simps char_of_digits)

lemmas parse_simps =
  parseInt_def strip_sign_def is_white_space_def is_digit_def digit_value_def digits_value_def
  to_js_string_def to_number_exact

lemma parseInt_examples:
  "parseInt ''1'' = Finite 1"
  "parseInt ''2'' = Finite 2"
  "parseInt ''7'' = Finite 7"
  "parseInt ''1abc'' = Finite 1"
  "parseInt ''undefined'' = NaN"
  by (simp_all add: parse_simps)

lemmas run_simps =
  app_def route_of_def matches_def register_def upload_single_def multer_body_def no_fields_def
  trim_def is_white_space_def saveInventory_def itemToDTO_def truthy_def boot_def
  loadInventory_def initial_nextId_def delete_item_def unlink_photo_def plain_request_def
  register_request_def delete_request_def update_request_def register_photo_request_def
  photo_request_def put_photo_request_def get_request_def drill_photo_def relative_cache_def
  findItem_def get_route_handles_def method_not_allowed_def not_found_def Let_def
  round_double_small parseInt_examples

lemma drill_world_fields:
  "inventory drill_world
     = [\<lparr>item_id = 1, inventory_name = ''Drill'', description = [],
         photoFilename = Some ''photo_1730505600000_drill.jpg''\<rparr>]"
  "nextId drill_world = 2"
  "files drill_world
     = [''photo_1730505600000_drill.jpg'' \<mapsto> ''JFIF'']"
  by (simp_all add: drill_world_def run_simps stored_drill_photo)

lemma after_delete_world_fields:
  "inventory after_delete_world
     = [\<lparr>item_id = 1, inventory_name = ''Drill'', description = [], photoFilename = None\<rparr>]"
  "nextId after_delete_world = 3"
  by (simp_all add: after_delete_world_def run_simps)

lemma big_world_fields:
  "inventory big_world = [big_item]"
  "nextId big_world = 9007199254740992"
  by (simp_all add: big_world_def boot_def loadInventory_def initial_nextId_def big_item_def
      round_double_2_53_1)

lemma twin_world_fields:
  "inventory twin_world = [twin_a, twin_b]"
  by (simp add: twin_world_def boot_def loadInventory_def)

lemma register_example:
  "fst (app rv opts w (register_request ''Drill''))
     = Json 201 (ItemBody \<lparr>dto_id = nextId w, dto_inventory_name = ''Drill'',
                            dto_description = [], photo_url = None\<rparr>)"
  "fst (app rv opts w (register_request ''Saw''))
     = Json 201 (ItemBody \<lparr>dto_id = nextId w, dto_inventory_name = ''Saw'',
                            dto_description = [], photo_url = None\<rparr>)"
  "fst (app rv opts w (register_request ''Hammer''))
     = Json 201 (ItemBody \<lparr>dto_id = nextId w, dto_inventory_name = ''Hammer'',
                            dto_description = [], photo_url = None\<rparr>)"
  "nextId (snd (app rv opts w (register_request ''Drill''))) = round_double (nextId w + 1)"
  by (simp_all add: app_def register_def upload_single_def multer_body_def no_fields_def
      register_request_def plain_request_def trim_def is_white_space_def itemToDTO_def
      truthy_def saveInventory_def Let_def)

lemma creates_examples:
  "creates rv (register_request ''Drill'')"
  "creates rv (register_request ''Saw'')"
  "creates rv (register_request ''Hammer'')"
  "\<not> creates rv (delete_request i)"
  by (simp_all add: creates_def multer_body_def no_fields_def register_request_def
      delete_request_def plain_request_def blank_name_def is_white_space_def
      route_of_def matches_def)

section \<open>Ids are never reused\<close>

text \<open>
  C2, within the range in which the counter counts exactly. When the persisted ids are
  below \<open>2 ^ 53\<close> and the counter does not pass \<open>2 ^ 53\<close> during the run, whatever
  requests are served: an id that is in the store at some moment is smaller than the
  id of every item created later, whatever happens in between. So no id is assigned
  twice, and the id of a deleted item is never assigned again.
\<close>

theorem ids_never_reused:
  assumes "\<forall>it\<in>set (loadInventory f). item_id it < 2 ^ 53"
    and "initial_nextId (loadInventory f) + int (length (filter (creates rv) (rs @ rs'))) \<le> 2 ^ 53"
    and "i \<in> set (map item_id (inventory (serve rv opts (boot f fs) rs)))"
    and "fst (app rv opts (serve rv opts (boot f fs) (rs @ rs')) r) = Json 201 (ItemBody d)"
  shows "i < dto_id d"
proof -
  let ?w = "serve rv opts (boot f fs) rs"
  let ?w' = "serve rv opts (boot f fs) (rs @ rs')"
  have start: "nextId (boot f fs) = initial_nextId (loadInventory f)" by (simp add: boot_def)
  have pos: "0 \<le> nextId (boot f fs)" using boot_nextId_pos [OF assms(1), of fs] by simp
  have all: "nextId (boot f fs) + int (length (filter (creates rv) (rs @ rs'))) \<le> 2 ^ 53"
    using assms(2) by (simp add: start)
  then have part: "nextId (boot f fs) + int (length (filter (creates rv) rs)) \<le> 2 ^ 53"
    by simp
  have "ids_below ?w"
    using boot_ids_below [OF assms(1)] pos part by (rule serve_ids_below)
  with assms(3) have "i < nextId ?w" by (auto simp: ids_below_def list_all_iff)
  also have "nextId ?w \<le> nextId ?w'"
    by (simp add: serve_nextId [OF pos part] serve_nextId [OF pos all])
  also have "nextId ?w' = dto_id d"
    using app_created [OF assms(4)] by simp
  finally show ?thesis .
qed

text \<open>
  Outside this range the claim fails. Started on a file whose item has the id
  \<open>2 ^ 53\<close>, the counter starts at \<open>2 ^ 53\<close> and stays there: two registrations in a
  row are given the id \<open>2 ^ 53\<close>, which is also the id of the persisted item.
\<close>

theorem id_assigned_twice_counterexample:
  "fst (app Base relative_cache big_world (register_request ''Drill''))
     = Json 201 (ItemBody \<lparr>dto_id = 9007199254740992, dto_inventory_name = ''Drill'',
                            dto_description = [], photo_url = None\<rparr>) \<and>
   fst (app Base relative_cache
          (snd (app Base relative_cache big_world (register_request ''Drill'')))
          (register_request ''Saw''))
     = Json 201 (ItemBody \<lparr>dto_id = 9007199254740992, dto_inventory_name = ''Saw'',
                            dto_description = [], photo_url = None\<rparr>)"
  by (simp add: register_example big_world_fields round_double_2_53_1)

theorem ids_never_reused_witness:
  "loadInventory Absent = [] \<and>
   initial_nextId (loadInventory Absent)
     + int (length (filter (creates Base) ([register_request ''Drill''] @ [delete_request ''1''])))
     \<le> 2 ^ 53 \<and>
   1 \<in> set (map item_id (inventory (serve Base relative_cache (boot Absent Map.empty)
        [register_request ''Drill'']))) \<and>
   fst (app Base relative_cache
        (serve Base relative_cache (boot Absent Map.empty)
           ([register_request ''Drill''] @ [delete_request ''1'']))
        (register_request ''Saw''))
      = Json 201 (ItemBody \<lparr>dto_id = 2, dto_inventory_name = ''Saw'', dto_description = [],
                              photo_url = None\<rparr>) \<and>
   (1::int) < dto_id \<lparr>dto_id = 2, dto_inventory_name = ''Saw'', dto_description = [],
                              photo_url = None\<rparr>"
proof -
  have h1: "\<forall>it\<in>set (loadInventory Absent). item_id it < 2 ^ 53"
    by (simp add: loadInventory_def)
  have h2: "initial_nextId (loadInventory Absent)
     + int (length (filter (creates Base) ([register_request ''Drill''] @ [delete_request ''1''])))
     \<le> 2 ^ 53"
    by (simp add: loadInventory_def initial_nextId_def creates_examples)
  have h3: "1 \<in> set (map item_id (inventory (serve Base relative_cache (boot Absent Map.empty)
        [register_request ''Drill''])))"
    by (simp add: run_simps)
  have h4: "fst (app Base relative_cache
        (serve Base relative_cache (boot Absent Map.empty)
           ([register_request ''Drill''] @ [delete_request ''1'']))
        (register_request ''Saw''))
      = Json 201 (ItemBody \<lparr>dto_id = 2, dto_inventory_name = ''Saw'', dto_description = [],
                              photo_url = None\<rparr>)"
    by (simp add: run_simps)
  have h0: "loadInventory Absent = []" by (simp add: loadInventory_def)
  from ids_never_reused [OF h1 h2 h3 h4] h0 h2 h3 h4 show ?thesis by (intro conjI)
qed

section \<open>Rejected registrations\<close>

text \<open>
  A register request with a parsed body whose \<^verbatim>\<open>inventory_name\<close> is missing, empty or
  made of white space only is answered with status 400, and the inventory store is
  unchanged: the same item list, the same counter and the same persisted file.
\<close>

lemma register_rejects_blank_name:
  assumes "req_method req = POST" and "path req = [''register'']"
    and "multer_body req = Some b" and "blank_name (body_inventory_name b)"
  shows "fst (app rv opts w req) = Json 400 (ErrorBody ''inventory_name is required'') \<and>
         inventory (snd (app rv opts w req)) = inventory w \<and>
         nextId (snd (app rv opts w req)) = nextId w \<and>
         inventory_file (snd (app rv opts w req)) = inventory_file w"
  using assms by (simp add: app_register register_blank)

text \<open>
  C3 fails for a register request without a parsed body, for which \<^verbatim>\<open>req.body\<close> is
  undefined: its \<^verbatim>\<open>inventory_name\<close> is missing, but the handler throws when it reads the
  fields of \<^verbatim>\<open>req.body\<close>, before the check of the name, and the request is answered
  with status 500 instead of 400. The store is unchanged.
\<close>

theorem register_without_body_throws:
  "body (plain_request\<lparr>req_method := POST, path := [''register'']\<rparr>) = None \<and>
   photo_part (plain_request\<lparr>req_method := POST, path := [''register'']\<rparr>) = None \<and>
   fst (app Base relative_cache drill_world
          (plain_request\<lparr>req_method := POST, path := [''register'']\<rparr>))
     = Uncaught TypeError \<and>
   inventory (snd (app Base relative_cache drill_world
          (plain_request\<lparr>req_method := POST, path := [''register'']\<rparr>)))
     = inventory drill_world"
  by (simp add: app_register register_no_body multer_body_def plain_request_def)

section \<open>Partial update\<close>

text \<open>
  C4. An update of an existing item (the first item of the store with the requested id,
  at position \<open>k\<close>) with a parsed body answers 200 and replaces that item by
  \<open>updated_item\<close>: the name and the description are replaced exactly when the body
  supplies them (also by an empty string), an omitted field keeps its value, and the
  id and the photo reference are unchanged. Every other position of the store, the
  counter and the photo files are unchanged, and the new list is persisted. An update
  without a parsed body supplies no field: the handler throws and nothing is changed.
\<close>

theorem update_replaces_supplied_fields:
  assumes "req_method req = PUT" and "path req = [''inventory'', idp]" and "idp \<noteq> []"
    and "findItem w (parseInt idp) = Some it"
  shows
    "(body req = None \<longrightarrow> app rv opts w req = (Uncaught TypeError, w)) \<and>
     (\<forall>b. body req = Some b \<longrightarrow>
        (\<exists>k < length (inventory w).
           inventory w ! k = it \<and>
           fst (app rv opts w req) = Json 200 (ItemBody (itemToDTO req (updated_item b it))) \<and>
           inventory (snd (app rv opts w req)) = (inventory w)[k := updated_item b it] \<and>
           findItem (snd (app rv opts w req)) (parseInt idp) = Some (updated_item b it) \<and>
           nextId (snd (app rv opts w req)) = nextId w \<and>
           files (snd (app rv opts w req)) = files w \<and>
           inventory_file (snd (app rv opts w req))
             = Holds (inventory (snd (app rv opts w req)))))"
proof -
  let ?P = "\<lambda>x. item_id x = item_id it"
  from findItem_SomeD [OF assms(4)] have pid: "parseInt idp = Finite (item_id it)"
    and fnd: "find ?P (inventory w) = Some it" by simp_all
  from find_Some_findIndex [OF fnd] obtain k where k: "findIndex ?P (inventory w) = Some k"
    and at: "inventory w ! k = it" and len: "k < length (inventory w)"
    by auto
  have nobody: "app rv opts w req = (Uncaught TypeError, w)" if "body req = None"
    using assms that by (simp add: app_put_item update_item_no_body)
  have parsed: "\<exists>k < length (inventory w).
           inventory w ! k = it \<and>
           fst (app rv opts w req) = Json 200 (ItemBody (itemToDTO req (updated_item b it))) \<and>
           inventory (snd (app rv opts w req)) = (inventory w)[k := updated_item b it] \<and>
           findItem (snd (app rv opts w req)) (parseInt idp) = Some (updated_item b it) \<and>
           nextId (snd (app rv opts w req)) = nextId w \<and>
           files (snd (app rv opts w req)) = files w \<and>
           inventory_file (snd (app rv opts w req))
             = Holds (inventory (snd (app rv opts w req)))"
    if b: "body req = Some b" for b
  proof -
    have upd: "update_first ?P (assign_fields b) (inventory w) = (inventory w)[k := updated_item b it]"
      using update_first_as_list_update [OF k, of "assign_fields b"] at
      by (simp add: assign_fields_updated_item)
    have run: "app rv opts w req =
        (Json 200 (ItemBody (itemToDTO req (updated_item b it))),
         w\<lparr>inventory := (inventory w)[k := updated_item b it],
           inventory_file := Holds ((inventory w)[k := updated_item b it])\<rparr>)"
      using assms b by (simp add: app_put_item update_item_found upd assign_fields_updated_item)
    have same_id: "?P (updated_item b it)" by (simp add: updated_item_def)
    have again: "findItem (snd (app rv opts w req)) (parseInt idp) = Some (updated_item b it)"
      using find_list_update [OF k same_id] by (simp add: run pid findItem_def)
    show ?thesis using len at again by (intro exI [of _ k]) (simp add: run)
  qed
  from nobody parsed show ?thesis by (intro conjI allI impI)
qed

theorem update_replaces_supplied_fields_witness:
  "findItem drill_world (parseInt ''1'')
     = Some \<lparr>item_id = 1, inventory_name = ''Drill'', description = [],
              photoFilename = Some ''photo_1730505600000_drill.jpg''\<rparr> \<and>
   inventory (snd (app Base relative_cache drill_world
                (update_request ''1'' (Some '''') (Some ''cordless''))))
     = [\<lparr>item_id = 1, inventory_name = [], description = ''cordless'',
         photoFilename = Some ''photo_1730505600000_drill.jpg''\<rparr>] \<and>
   app Base relative_cache drill_world
       (plain_request\<lparr>req_method := PUT, path := [''inventory'', ''1'']\<rparr>)
     = (Uncaught TypeError, drill_world)"
proof -
  let ?it = "\<lparr>item_id = 1, inventory_name = ''Drill'', description = [],
              photoFilename = Some ''photo_1730505600000_drill.jpg''\<rparr>"
  let ?req = "update_request ''1'' (Some '''') (Some ''cordless'')"
  let ?b = "no_fields\<lparr>body_inventory_name := Some '''', body_description := Some ''cordless''\<rparr>"
  let ?req' = "plain_request\<lparr>req_method := PUT, path := [''inventory'', ''1'']\<rparr>"
  have h1: "req_method ?req = PUT" by (simp add: update_request_def)
  have h2: "path ?req = [''inventory'', ''1'']" by (simp add: update_request_def)
  have h3: "''1'' \<noteq> []" by simp
  have h4: "findItem drill_world (parseInt ''1'') = Some ?it"
    by (simp add: drill_world_fields findItem_def parseInt_examples)
  have h5: "body ?req = Some ?b" by (simp add: update_request_def)
  note t = update_replaces_supplied_fields [OF h1 h2 h3 h4, of Base relative_cache,
      THEN conjunct2, rule_format, OF h5]
  then obtain k where "k < length (inventory drill_world)"
    and "inventory (snd (app Base relative_cache drill_world ?req))
           = (inventory drill_world)[k := updated_item ?b ?it]"
    by (elim exE conjE)
  then have a: "inventory (snd (app Base relative_cache drill_world ?req))
     = [\<lparr>item_id = 1, inventory_name = [], description = ''cordless'',
         photoFilename = Some ''photo_1730505600000_drill.jpg''\<rparr>]"
    by (simp add: drill_world_fields updated_item_def no_fields_def)
  have g1: "req_method ?req' = PUT" and g2: "path ?req' = [''inventory'', ''1'']"
    and g5: "body ?req' = None" by (simp_all add: plain_request_def)
  have b: "app Base relative_cache drill_world ?req' = (Uncaught TypeError, drill_world)"
    using update_replaces_supplied_fields [OF g1 g2 h3 h4, of Base relative_cache,
      THEN conjunct1, rule_format, OF g5] .
  from h4 a b show ?thesis by (intro conjI)
qed

section \<open>Delete\<close>

lemma splice_remove1:
  "findIndex P xs = Some k \<Longrightarrow> take k xs @ drop (Suc k) xs = remove1 (xs ! k) xs"
proof (induction xs arbitrary: k)
  case Nil
  then show ?case by simp
next
  case (Cons x xs)
  show ?case
  proof (cases "P x")
    case True
    with Cons.prems show ?thesis by simp
  next
    case False
    with Cons.prems obtain j where j: "findIndex P xs = Some j" and k: "k = Suc j"
      by auto
    from findIndex_Some [OF j] have "P (xs ! j)" by simp
    with False have "x \<noteq> xs ! j" by auto
    with Cons.IH [OF j] k show ?thesis by simp
  qed
qed

lemma distinct_map_remove1:
  assumes "distinct (map f xs)" and "x \<in> set xs" and "y \<in> set (remove1 x xs)"
  shows "f y \<noteq> f x"
proof -
  from assms(1) have d: "distinct xs" and inj: "inj_on f (set xs)"
    by (simp_all add: distinct_map)
  from d assms(3) have "y \<in> set xs" and "y \<noteq> x" by simp_all
  with inj assms(2) show ?thesis by (auto dest: inj_onD)
qed

lemma upload_single_files: "dom (files w) \<subseteq> dom (files (snd (upload_single w req)))"
  by (auto simp: upload_single_def Let_def split: option.splits)

lemma delete_existing:
  assumes "findItem w (parseInt idp) = Some it"
  shows "fst (delete_item w req idp) = Json 200 (MessageBody ''Item deleted'')"
    and "inventory (snd (delete_item w req idp)) = remove1 it (inventory w)"
    and "nextId (snd (delete_item w req idp)) = nextId w"
    and "photoFilename it = Some name \<Longrightarrow> name \<noteq> [] \<Longrightarrow>
         files (snd (delete_item w req idp)) name = None"
    and "distinct (map item_id (inventory w)) \<Longrightarrow>
         findItem (snd (delete_item w req idp)) (parseInt idp) = None"
proof -
  let ?P = "\<lambda>x. item_id x = item_id it"
  from findItem_SomeD [OF assms] have pid: "parseInt idp = Finite (item_id it)"
    and fnd: "find ?P (inventory w) = Some it" by simp_all
  from find_Some_findIndex [OF fnd] obtain k where k: "findIndex ?P (inventory w) = Some k"
    and at: "inventory w ! k = it" and len: "k < length (inventory w)" by auto
  have rest: "take k (inventory w) @ drop (Suc k) (inventory w) = remove1 it (inventory w)"
    using splice_remove1 [OF k] at by simp
  have run: "delete_item w req idp =
     (Json 200 (MessageBody ''Item deleted''),
      unlink_photo (photoFilename it)
        (w\<lparr>inventory := remove1 it (inventory w),
           inventory_file := Holds (remove1 it (inventory w))\<rparr>))"
    using delete_item_found [OF pid k] at rest by simp
  show "fst (delete_item w req idp) = Json 200 (MessageBody ''Item deleted'')"
    by (simp add: run)
  show inv: "inventory (snd (delete_item w req idp)) = remove1 it (inventory w)"
    by (simp add: run)
  show "nextId (snd (delete_item w req idp)) = nextId w" by simp
  show "files (snd (delete_item w req idp)) name = None"
    if "photoFilename it = Some name" and "name \<noteq> []"
    using that by (simp add: run files_unlink_photo)
  from at len have mem: "it \<in> set (inventory w)" by (metis nth_mem)
  show "findItem (snd (delete_item w req idp)) (parseInt idp) = None"
    if d: "distinct (map item_id (inventory w))"
  proof -
    have "\<forall>y\<in>set (remove1 it (inventory w)). \<not> ?P y"
      using distinct_map_remove1 [OF d mem] by auto
    then have "find ?P (remove1 it (inventory w)) = None"
      by (simp add: find_None_iff_all)
    then show ?thesis by (simp add: findItem_def pid inv)
  qed
qed

text \<open>
  C6, as the code has it. A delete request for an id that matches no item is answered
  404 and leaves the whole state unchanged. When the id matches, the first item with
  that id is removed: the answer is 200 with the message \<^verbatim>\<open>Item deleted\<close>, the store is
  the old one without that entry, which is what a later listing shows, and the file
  that its photo reference names no longer exists. When the ids of the store are
  unique, the item is in no later listing, a later get-by-id answers 404 and the photo
  route answers 404 for that id.
\<close>

theorem delete_removes_item_and_photo:
  assumes "req_method req = DELETE" and "path req = [''inventory'', idp]" and "idp \<noteq> []"
  shows
    "(findItem w (parseInt idp) = None \<longrightarrow>
        app rv opts w req = (Json 404 (ErrorBody ''Item not found''), w)) \<and>
     (\<forall>it. findItem w (parseInt idp) = Some it \<longrightarrow>
        fst (app rv opts w req) = Json 200 (MessageBody ''Item deleted'') \<and>
        inventory (snd (app rv opts w req)) = remove1 it (inventory w) \<and>
        (\<forall>name. photoFilename it = Some name \<and> name \<noteq> [] \<longrightarrow>
           files (snd (app rv opts w req)) name = None) \<and>
        (\<forall>r. req_method r = GET \<and> path r = [''inventory''] \<longrightarrow>
           fst (app rv opts (snd (app rv opts w req)) r)
             = Json 200 (ListBody (map (itemToDTO r) (remove1 it (inventory w))))) \<and>
        (distinct (map item_id (inventory w)) \<longrightarrow>
           it \<notin> set (inventory (snd (app rv opts w req))) \<and>
           (\<forall>r. req_method r = GET \<and> path r = [''inventory'', idp] \<longrightarrow>
              fst (app rv opts (snd (app rv opts w req)) r)
                = Json 404 (ErrorBody ''Item not found'')) \<and>
           (\<forall>r. req_method r = GET \<and> path r = [''inventory'', idp, ''photo''] \<longrightarrow>
              fst (app rv opts (snd (app rv opts w req)) r)
                = Json 404 (ErrorBody ''Photo not found''))))"
proof -
  have del: "app rv opts w req = delete_item w req idp"
    using assms(1-3) by (rule app_delete_item)
  have gone: "it \<notin> set (remove1 it (inventory w))"
    if "distinct (map item_id (inventory w))" for it
    using that by (simp add: distinct_map)
  show ?thesis
    using assms(3) delete_existing [where w = w and idp = idp and req = req] gone
    by (simp add: del delete_item_missing app_get_item app_get_photo app_list_inventory
        get_item_def get_photo_def list_inventory_def)
qed

text \<open>
  Without unique ids the claim fails: started on a file in which two items have the
  id 1, the service answers the delete of id 1 with 200 and a following get-by-id of
  id 1 again with 200, now with the second item.
\<close>

theorem delete_with_twin_counterexample:
  "fst (app Base relative_cache twin_world (delete_request ''1''))
     = Json 200 (MessageBody ''Item deleted'') \<and>
   fst (app Base relative_cache
          (snd (app Base relative_cache twin_world (delete_request ''1'')))
          (get_request ''1''))
     = Json 200 (ItemBody \<lparr>dto_id = 1, dto_inventory_name = ''Saw'', dto_description = [],
                            photo_url = None\<rparr>)"
proof -
  have d: "app Base relative_cache twin_world (delete_request ''1'')
      = delete_item twin_world (delete_request ''1'') ''1''"
    by (rule app_delete_item) (simp_all add: delete_request_def)
  have f: "findItem twin_world (parseInt ''1'') = Some twin_a"
    by (simp add: findItem_def parseInt_examples twin_world_fields twin_a_def)
  have inv: "inventory (snd (delete_item twin_world (delete_request ''1'') ''1'')) = [twin_b]"
    using delete_existing(2) [OF f] by (simp add: twin_world_fields)
  have g: "app Base relative_cache w (get_request ''1'') = get_item w (get_request ''1'') ''1''"
    for w
    by (rule app_get_item) (simp_all add: get_request_def plain_request_def)
  show ?thesis
    using delete_existing(1) [OF f, of "delete_request ''1''"]
    by (simp add: d g get_item_def findItem_def parseInt_examples inv twin_b_def itemToDTO_def
        truthy_def)
qed

theorem delete_removes_item_and_photo_witness:
  "distinct (map item_id (inventory drill_world))
   \<and> fst (app Base relative_cache drill_world (delete_request ''1''))
       = Json 200 (MessageBody ''Item deleted'')
   \<and> files (snd (app Base relative_cache drill_world (delete_request ''1'')))
       ''photo_1730505600000_drill.jpg'' = None
   \<and> fst (app Base relative_cache
        (snd (app Base relative_cache drill_world (delete_request ''1''))) (get_request ''1''))
       = Json 404 (ErrorBody ''Item not found'')
   \<and> app Base relative_cache drill_world (delete_request ''7'')
       = (Json 404 (ErrorBody ''Item not found''), drill_world)"
proof -
  let ?w = drill_world
  let ?it = "\<lparr>item_id = 1, inventory_name = ''Drill'', description = [],
              photoFilename = Some ''photo_1730505600000_drill.jpg''\<rparr>"
  have h1: "req_method (delete_request i) = DELETE" for i by (simp add: delete_request_def)
  have h2: "path (delete_request i) = [''inventory'', i]" for i by (simp add: delete_request_def)
  have h3: "''1'' \<noteq> []" "''7'' \<noteq> []" by simp_all
  have h4: "distinct (map item_id (inventory ?w))" by (simp add: drill_world_fields)
  have f1: "findItem ?w (parseInt ''1'') = Some ?it"
    by (simp add: drill_world_fields findItem_def parseInt_examples)
  have f7: "findItem ?w (parseInt ''7'') = None"
    by (simp add: drill_world_fields findItem_def parseInt_examples)
  have g: "req_method (get_request ''1'') = GET \<and> path (get_request ''1'') = [''inventory'', ''1'']"
    by (simp add: get_request_def plain_request_def)
  note t = delete_removes_item_and_photo [OF h1 h2 h3(1), of ?w Base relative_cache,
      THEN conjunct2, rule_format, OF f1]
  have a: "fst (app Base relative_cache ?w (delete_request ''1'')) = Json 200 (MessageBody ''Item deleted'')"
    using t by (rule conjunct1)
  have b: "files (snd (app Base relative_cache ?w (delete_request ''1'')))
              ''photo_1730505600000_drill.jpg'' = None"
    using t [THEN conjunct2, THEN conjunct2, THEN conjunct1] by simp
  have c: "fst (app Base relative_cache
        (snd (app Base relative_cache ?w (delete_request ''1''))) (get_request ''1''))
       = Json 404 (ErrorBody ''Item not found'')"
    using t [THEN conjunct2, THEN conjunct2, THEN conjunct2, THEN conjunct2, rule_format, OF h4,
        THEN conjunct2, THEN conjunct1, rule_format, OF g] .
  have e: "app Base relative_cache ?w (delete_request ''7'')
       = (Json 404 (ErrorBody ''Item not found''), ?w)"
    using delete_removes_item_and_photo [OF h1 h2 h3(2), of ?w Base relative_cache,
      THEN conjunct1, rule_format, OF f7] .
  from h4 a b c e show ?thesis by (intro conjI)
qed

section \<open>Photo update and the photo files\<close>

lemma register_files: "dom (files w) \<subseteq> dom (files (snd (register w req)))"
proof (cases "multer_body req")
  case None
  then show ?thesis by (simp add: register_no_body)
next
  case (Some b)
  then show ?thesis
    using upload_single_files [of w req]
    by (cases "blank_name (body_inventory_name b)") (simp_all add: register_blank register_ok)
qed

lemma update_item_files: "files (snd (update_item w req i)) = files w"
  by (simp add: update_item_def saveInventory_def Let_def split: option.splits)

lemma put_photo_files: "dom (files w) \<subseteq> dom (files (snd (put_photo w req i)))"
proof (cases "findItem w (parseInt i)")
  case None
  then show ?thesis using upload_single_files [of w req] by (simp add: put_photo_missing)
next
  case (Some it)
  then show ?thesis
    by (cases "photo_part req") (auto simp: put_photo_no_file put_photo_found)
qed

lemma app_keeps_files:
  assumes "\<not> (req_method r = DELETE \<and> (\<exists>i. route_of rv (path r) = ItemRoute i))"
  shows "dom (files w) \<subseteq> dom (files (snd (app rv opts w r)))"
proof (cases "route_of rv (path r)")
  case (ItemRoute i)
  with assms have "req_method r \<noteq> DELETE" by auto
  with ItemRoute show ?thesis by (simp add: app_def Let_def update_item_files)
qed (simp_all add: app_def Let_def register_files put_photo_files)

lemma app_delete_route:
  "req_method r = DELETE \<Longrightarrow> route_of rv (path r) = ItemRoute i \<Longrightarrow>
   app rv opts w r = delete_item w r i"
  by (simp add: app_def get_route_handles_def)

text \<open>
  C7. A photo update of an existing item that carries a file answers 200 and sets the
  item's photo reference to the name under which multer stored the new file, whatever
  the reference was before. The only change to the photo files is the new file: a
  file that existed before, in particular the one the item referred to, still exists.
  No request other than a delete of an item (\<^verbatim>\<open>DELETE /inventory/:id\<close>) ever removes
  a file, and the delete of an item does remove the file that its photo reference
  names.
\<close>

theorem photo_update_replaces_reference:
  assumes "req_method req = PUT" and "path req = [''inventory'', idp, ''photo'']"
    and "idp \<noteq> []" and "findItem w (parseInt idp) = Some it" and "photo_part req = Some u"
  shows
    "fst (app rv opts w req) = Json 200 (ItemBody (itemToDTO req
        (it\<lparr>photoFilename := Some (stored_filename (now req) (originalname u))\<rparr>))) \<and>
     findItem (snd (app rv opts w req)) (parseInt idp)
       = Some (it\<lparr>photoFilename := Some (stored_filename (now req) (originalname u))\<rparr>) \<and>
     files (snd (app rv opts w req))
       = (files w)(stored_filename (now req) (originalname u) \<mapsto> content u) \<and>
     (\<forall>old. photoFilename it = Some old \<and> old \<in> dom (files w) \<longrightarrow>
        old \<in> dom (files (snd (app rv opts w req)))) \<and>
     (\<forall>rv' opts' w' r.
        \<not> (req_method r = DELETE \<and> (\<exists>i. route_of rv' (path r) = ItemRoute i)) \<longrightarrow>
        dom (files w') \<subseteq> dom (files (snd (app rv' opts' w' r)))) \<and>
     (\<forall>rv' opts' w' r i it' name.
        req_method r = DELETE \<and> route_of rv' (path r) = ItemRoute i \<and>
        findItem w' (parseInt i) = Some it' \<and> photoFilename it' = Some name \<and> name \<noteq> [] \<longrightarrow>
        files (snd (app rv' opts' w' r)) name = None)"
proof -
  let ?name = "stored_filename (now req) (originalname u)"
  let ?P = "\<lambda>x. item_id x = item_id it"
  let ?f = "\<lambda>x. x\<lparr>photoFilename := Some ?name\<rparr>"
  from findItem_SomeD [OF assms(4)] have pid: "parseInt idp = Finite (item_id it)"
    and fnd: "find ?P (inventory w) = Some it" by simp_all
  from find_Some_findIndex [OF fnd] obtain k where k: "findIndex ?P (inventory w) = Some k"
    and at: "inventory w ! k = it" by auto
  have upd: "update_first ?P ?f (inventory w) = (inventory w)[k := ?f it]"
    using update_first_as_list_update [OF k, of ?f] at by simp
  have run: "app rv opts w req =
      (Json 200 (ItemBody (itemToDTO req (?f it))),
       w\<lparr>files := (files w)(?name \<mapsto> content u),
         inventory := (inventory w)[k := ?f it],
         inventory_file := Holds ((inventory w)[k := ?f it])\<rparr>)"
    using assms by (simp add: app_put_photo put_photo_found upd)
  have same_id: "?P (?f it)" by simp
  have again: "findItem (snd (app rv opts w req)) (parseInt idp) = Some (?f it)"
    using find_list_update [OF k same_id] by (simp add: run pid findItem_def)
  have removed: "files (snd (app rv' opts' w' r)) name = None"
    if "req_method r = DELETE" and "route_of rv' (path r) = ItemRoute i"
      and "findItem w' (parseInt i) = Some it'" and "photoFilename it' = Some name"
      and "name \<noteq> []"
    for rv' opts' w' r i it' name
    using that delete_existing(4) [OF that(3), of name r] by (simp add: app_delete_route)
  have first: "fst (app rv opts w req) = Json 200 (ItemBody (itemToDTO req (?f it)))"
    and third: "files (snd (app rv opts w req)) = (files w)(?name \<mapsto> content u)"
    by (simp_all add: run)
  have fourth: "\<forall>old. photoFilename it = Some old \<and> old \<in> dom (files w) \<longrightarrow>
        old \<in> dom (files (snd (app rv opts w req)))"
    by (auto simp: run)
  from first again third fourth app_keeps_files removed show ?thesis
    by (intro conjI allI impI) (assumption | blast)+
qed

theorem photo_update_replaces_reference_witness:
  "findItem drill_world (parseInt ''1'')
     = Some \<lparr>item_id = 1, inventory_name = ''Drill'', description = [],
              photoFilename = Some ''photo_1730505600000_drill.jpg''\<rparr> \<and>
   photo_part (put_photo_request ''1'') = Some drill_photo \<and>
   findItem (snd (app Base relative_cache drill_world (put_photo_request ''1''))) (parseInt ''1'')
     = Some \<lparr>item_id = 1, inventory_name = ''Drill'', description = [],
              photoFilename = Some ''photo_1730505600999_drill.jpg''\<rparr> \<and>
   ''photo_1730505600000_drill.jpg''
     \<in> dom (files (snd (app Base relative_cache drill_world (put_photo_request ''1'')))) \<and>
   files drill_world ''photo_1730505600000_drill.jpg'' = Some ''JFIF'' \<and>
   files (snd (app Base relative_cache drill_world (delete_request ''1'')))
     ''photo_1730505600000_drill.jpg'' = None"
proof -
  let ?it = "\<lparr>item_id = 1, inventory_name = ''Drill'', description = [],
              photoFilename = Some ''photo_1730505600000_drill.jpg''\<rparr>"
  let ?req = "put_photo_request ''1''"
  have h1: "req_method ?req = PUT" by (simp add: put_photo_request_def)
  have h2: "path ?req = [''inventory'', ''1'', ''photo'']" by (simp add: put_photo_request_def)
  have h3: "''1'' \<noteq> []" by simp
  have h4: "findItem drill_world (parseInt ''1'') = Some ?it"
    by (simp add: drill_world_fields findItem_def parseInt_examples)
  have h5: "photo_part ?req = Some drill_photo" by (simp add: put_photo_request_def)
  have n: "now ?req = 1730505600999" by (simp add: put_photo_request_def plain_request_def)
  note t = photo_update_replaces_reference [OF h1 h2 h3 h4 h5, of Base relative_cache]
  have a: "findItem (snd (app Base relative_cache drill_world ?req)) (parseInt ''1'')
      = Some \<lparr>item_id = 1, inventory_name = ''Drill'', description = [],
              photoFilename = Some ''photo_1730505600999_drill.jpg''\<rparr>"
    using t [THEN conjunct2, THEN conjunct1]
    by (simp add: n drill_photo_def stored_drill_photo)
  have b: "''photo_1730505600000_drill.jpg''
      \<in> dom (files (snd (app Base relative_cache drill_world ?req)))"
    using t [THEN conjunct2, THEN conjunct2, THEN conjunct1]
    by (simp add: drill_world_fields)
  have c: "files drill_world ''photo_1730505600000_drill.jpg'' = Some ''JFIF''"
    by (simp add: drill_world_fields)
  have d: "req_method (delete_request ''1'') = DELETE \<and>
      route_of Base (path (delete_request ''1'')) = ItemRoute ''1'' \<and>
      findItem drill_world (parseInt ''1'') = Some ?it \<and>
      photoFilename ?it = Some ''photo_1730505600000_drill.jpg'' \<and>
      ''photo_1730505600000_drill.jpg'' \<noteq> []"
    using h4 by (simp add: delete_request_def)
  have e: "files (snd (app Base relative_cache drill_world (delete_request ''1'')))
     ''photo_1730505600000_drill.jpg'' = None"
    using t [THEN conjunct2, THEN conjunct2, THEN conjunct2, THEN conjunct2, THEN conjunct2,
        rule_format, OF d] .
  from h4 h5 a b c e show ?thesis by (intro conjI)
qed

section \<open>Persistence and startup\<close>

lemma register_persists:
  "inventory_file (snd (register w req)) = Holds (inventory (snd (register w req))) \<or>
   inventory (snd (register w req)) = inventory w \<and>
   inventory_file (snd (register w req)) = inventory_file w \<and>
   nextId (snd (register w req)) = nextId w"
proof (cases "multer_body req")
  case None
  then show ?thesis by (simp add: register_no_body)
next
  case (Some b)
  then show ?thesis
    by (cases "blank_name (body_inventory_name b)") (simp_all add: register_blank register_ok)
qed

lemma update_item_persists:
  "inventory_file (snd (update_item w req i)) = Holds (inventory (snd (update_item w req i))) \<or>
   snd (update_item w req i) = w"
  by (simp add: update_item_def saveInventory_def Let_def split: option.splits)

lemma delete_item_persists:
  "inventory_file (snd (delete_item w req i)) = Holds (inventory (snd (delete_item w req i))) \<or>
   snd (delete_item w req i) = w"
  by (simp add: delete_item_def saveInventory_def Let_def split: option.splits number.splits)

lemma put_photo_persists:
  "inventory_file (snd (put_photo w req i)) = Holds (inventory (snd (put_photo w req i))) \<or>
   inventory (snd (put_photo w req i)) = inventory w \<and>
   inventory_file (snd (put_photo w req i)) = inventory_file w \<and>
   nextId (snd (put_photo w req i)) = nextId w"
proof (cases "findItem w (parseInt i)")
  case None
  then show ?thesis by (simp add: put_photo_missing)
next
  case (Some it)
  then show ?thesis
    by (cases "photo_part req") (simp_all add: put_photo_no_file put_photo_found)
qed

lemma app_persists:
  "inventory_file (snd (app rv opts w r)) = Holds (inventory (snd (app rv opts w r))) \<or>
   inventory (snd (app rv opts w r)) = inventory w \<and>
   inventory_file (snd (app rv opts w r)) = inventory_file w \<and>
   nextId (snd (app rv opts w r)) = nextId w"
proof (cases "route_of rv (path r)")
  case RegisterRoute
  then show ?thesis using register_persists [of w r] by (simp add: app_def Let_def)
next
  case (ItemRoute i)
  then show ?thesis
    using update_item_persists [of w r i] delete_item_persists [of w r i]
    by (auto simp: app_def Let_def)
next
  case (PhotoRoute i)
  then show ?thesis using put_photo_persists [of w r i] by (simp add: app_def Let_def)
qed (simp_all add: app_def Let_def)

lemma serve_persists:
  assumes "inventory w = [] \<and> nextId w = 1 \<and> inventory_file w = f \<or>
           inventory_file w = Holds (inventory w)"
  shows "inventory (serve rv opts w rs) = [] \<and> nextId (serve rv opts w rs) = 1 \<and>
           inventory_file (serve rv opts w rs) = f \<or>
         inventory_file (serve rv opts w rs) = Holds (inventory (serve rv opts w rs))"
  using assms
proof (induction rs arbitrary: w)
  case Nil
  then show ?case by simp
next
  case (Cons r rs)
  have "inventory (snd (app rv opts w r)) = [] \<and> nextId (snd (app rv opts w r)) = 1 \<and>
          inventory_file (snd (app rv opts w r)) = f \<or>
        inventory_file (snd (app rv opts w r)) = Holds (inventory (snd (app rv opts w r)))"
    using app_persists [of rv opts w r] Cons.prems by auto
  from Cons.IH [OF this] show ?case by simp
qed

text \<open>
  C10. When \<^verbatim>\<open>inventory.json\<close> is absent, or cannot be read or parsed, the service
  starts with an empty inventory and the id counter at 1. From then on, whatever
  requests are served, either nothing has been mutated yet (the store is still empty
  and the file is still as it was found) or the file holds exactly the current
  inventory: the unreadable contents are discarded and overwritten by the first
  mutation. The first successful register creates the item with id 1 and writes a file
  holding that item alone.
\<close>

theorem unreadable_file_starts_empty:
  assumes "f = Absent \<or> (\<exists>raw. f = Corrupt raw)"
  shows "inventory (boot f fs) = [] \<and> nextId (boot f fs) = 1 \<and>
         (\<forall>rv opts rs.
            inventory (serve rv opts (boot f fs) rs) = [] \<and>
            nextId (serve rv opts (boot f fs) rs) = 1 \<and>
            inventory_file (serve rv opts (boot f fs) rs) = f
            \<or> inventory_file (serve rv opts (boot f fs) rs)
                = Holds (inventory (serve rv opts (boot f fs) rs))) \<and>
         (\<forall>rv opts req. creates rv req \<longrightarrow>
            (\<exists>d. fst (app rv opts (boot f fs) req) = Json 201 (ItemBody d) \<and> dto_id d = 1) \<and>
            (\<exists>it. item_id it = 1 \<and>
               inventory_file (snd (app rv opts (boot f fs) req)) = Holds [it]))"
proof -
  from assms have start: "inventory (boot f fs) = []" "nextId (boot f fs) = 1"
    "inventory_file (boot f fs) = f"
    by (auto simp: boot_def loadInventory_def initial_nextId_def)
  have later: "inventory (serve rv opts (boot f fs) rs) = [] \<and>
            nextId (serve rv opts (boot f fs) rs) = 1 \<and>
            inventory_file (serve rv opts (boot f fs) rs) = f
            \<or> inventory_file (serve rv opts (boot f fs) rs)
                = Holds (inventory (serve rv opts (boot f fs) rs))" for rv opts rs
    by (rule serve_persists) (simp add: start)
  have first: "(\<exists>d. fst (app rv opts (boot f fs) req) = Json 201 (ItemBody d) \<and> dto_id d = 1) \<and>
            (\<exists>it. item_id it = 1 \<and>
               inventory_file (snd (app rv opts (boot f fs) req)) = Holds [it])"
    if "creates rv req" for rv opts req
  proof -
    from creates_register [OF that] obtain b
      where "app rv opts (boot f fs) req = register (boot f fs) req"
        and "multer_body req = Some b" and "\<not> blank_name (body_inventory_name b)"
      by auto
    then show ?thesis by (simp add: register_ok start itemToDTO_def)
  qed
  from start later first show ?thesis by simp
qed

theorem unreadable_file_starts_empty_witness:
  "inventory (boot (Corrupt ''[{'') Map.empty) = [] \<and>
   nextId (boot (Corrupt ''[{'') Map.empty) = 1 \<and>
   inventory_file (serve Base relative_cache (boot (Corrupt ''[{'') Map.empty)
       [register_request ''Drill''])
     = Holds [\<lparr>item_id = 1, inventory_name = ''Drill'', description = [], photoFilename = None\<rparr>]"
proof -
  have h: "Corrupt ''[{'' = Absent \<or> (\<exists>raw. Corrupt ''[{'' = Corrupt raw)" by simp
  note t = unreadable_file_starts_empty [OF h, of Map.empty]
  have a: "inventory (boot (Corrupt ''[{'') Map.empty) = []" using t by (rule conjunct1)
  have b: "nextId (boot (Corrupt ''[{'') Map.empty) = 1"
    using t [THEN conjunct2] by (rule conjunct1)
  have c: "inventory_file (serve Base relative_cache (boot (Corrupt ''[{'') Map.empty)
       [register_request ''Drill''])
     = Holds [\<lparr>item_id = 1, inventory_name = ''Drill'', description = [], photoFilename = None\<rparr>]"
    by (simp add: run_simps)
  from a b c show ?thesis by simp
qed

section \<open>Decimal numerals and parseInt\<close>

lemma digits_value_snoc: "digits_value (ds @ [c]) = 10 * digits_value ds + digit_value c"
  by (simp add: digits_value_def)

lemma digit_char:
  assumes "d < 10"
  shows "is_digit (char_of (48 + d))" and "digit_value (char_of (48 + d)) = d"
    and "\<not> is_white_space (char_of (48 + d))"
    and "char_of (48 + d) \<noteq> CHR ''-''" and "char_of (48 + d) \<noteq> CHR ''+''"
proof -
  have code: "(of_char (char_of (48 + d)) :: nat) = 48 + d"
    using assms by (simp add: of_char_of)
  show "is_digit (char_of (48 + d))" using assms by (simp add: is_digit_def code)
  show "digit_value (char_of (48 + d)) = d" using assms by (simp add: digit_value_def)
  show "\<not> is_white_space (char_of (48 + d))"
    using assms by (simp add: is_white_space_def code)
  have "(of_char (char_of (48 + d)) :: nat) \<noteq> of_char CHR ''-''"
    using assms by (simp add: code)
  then show "char_of (48 + d) \<noteq> CHR ''-''" by metis
  have "(of_char (char_of (48 + d)) :: nat) \<noteq> of_char CHR ''+''"
    using assms by (simp add: code)
  then show "char_of (48 + d) \<noteq> CHR ''+''" by metis
qed

lemma show_nat_digits:
  "show_nat n \<noteq> [] \<and> list_all is_digit (show_nat n) \<and> digits_value (show_nat n) = n"
proof (induction n rule: show_nat.induct)
  case (1 n)
  show ?case
  proof (cases "n < 10")
    case True
    then show ?thesis
      by (simp add: show_nat.simps [of n] digit_char digits_value_def)
  next
    case False
    have "n mod 10 < 10" by simp
    note d = digit_char [OF this]
    from False 1 have ih: "list_all is_digit (show_nat (n div 10))"
      "digits_value (show_nat (n div 10)) = n div 10" by simp_all
    from False show ?thesis
      by (simp add: show_nat.simps [of n] digits_value_snoc ih d)
  qed
qed

lemma show_nat_hd:
  "\<exists>c cs. show_nat n = c # cs \<and> is_digit c \<and> \<not> is_white_space c \<and> c \<noteq> CHR ''-'' \<and> c \<noteq> CHR ''+''"
proof (induction n rule: show_nat.induct)
  case (1 n)
  show ?case
  proof (cases "n < 10")
    case True
    then show ?thesis by (simp add: show_nat.simps [of n] digit_char)
  next
    case False
    with 1 obtain c cs where "show_nat (n div 10) = c # cs" and "is_digit c"
      and "\<not> is_white_space c" and "c \<noteq> CHR ''-''" and "c \<noteq> CHR ''+''" by auto
    with False show ?thesis by (simp add: show_nat.simps [of n])
  qed
qed

lemma takeWhile_all: "list_all P xs \<Longrightarrow> takeWhile P xs = xs"
  by (induction xs) simp_all

lemma digit_not_space_or_sign:
  assumes "is_digit c"
  shows "\<not> is_white_space c" and "c \<noteq> CHR ''-''" and "c \<noteq> CHR ''+''"
proof -
  from assms have range: "48 \<le> (of_char c :: nat)" "(of_char c :: nat) \<le> 57"
    by (simp_all add: is_digit_def)
  then show "\<not> is_white_space c" by (simp add: is_white_space_def)
  from range have "(of_char c :: nat) \<noteq> of_char CHR ''-''" by simp
  then show "c \<noteq> CHR ''-''" by metis
  from range have "(of_char c :: nat) \<noteq> of_char CHR ''+''" by simp
  then show "c \<noteq> CHR ''+''" by metis
qed

lemma sign_not_space: "\<not> is_white_space CHR ''-''" "\<not> is_white_space CHR ''+''"
  by (simp_all add: is_white_space_def)

lemma parseInt_show_nat: "parseInt (show_nat n) = to_number (int n)"
proof -
  from show_nat_hd obtain c cs where s: "show_nat n = c # cs"
    and c: "\<not> is_white_space c" "c \<noteq> CHR ''-''" "c \<noteq> CHR ''+''" by blast
  have sgn: "strip_sign (dropWhile is_white_space (show_nat n)) = (False, show_nat n)"
    using c by (simp add: s strip_sign_def)
  have tw: "takeWhile is_digit (show_nat n) = show_nat n"
    using show_nat_digits by (simp add: takeWhile_all)
  have ne: "show_nat n \<noteq> []" and dv: "digits_value (show_nat n) = n"
    using show_nat_digits by simp_all
  show ?thesis by (simp add: parseInt_def sgn tw ne dv)
qed

lemma parseInt_show_int: "parseInt (show_int i) = to_number i"
proof (cases "i < 0")
  case False
  then show ?thesis by (simp add: show_int_def parseInt_show_nat)
next
  case True
  have ws: "\<not> is_white_space CHR ''-''" by (simp add: is_white_space_def)
  have tw: "takeWhile is_digit (show_nat (nat (- i))) = show_nat (nat (- i))"
    using show_nat_digits by (simp add: takeWhile_all)
  have ne: "show_nat (nat (- i)) \<noteq> []"
    and dv: "digits_value (show_nat (nat (- i))) = nat (- i)"
    using show_nat_digits by simp_all
  show ?thesis
    using True by (simp add: show_int_def parseInt_def ws strip_sign_def tw ne dv)
qed

lemma show_int_nonempty: "show_int i \<noteq> []"
  using show_nat_digits by (simp add: show_int_def)

section \<open>The id of a new item\<close>

lemma spec_next_id_tight:
  assumes "ids_below w"
    and "map item_id (inventory w) = [] \<and> nextId w = 1 \<or>
         nextId w - 1 \<in> set (map item_id (inventory w))"
  shows "nextId w = spec_next_id (inventory w)"
proof (cases "inventory w = []")
  case True
  with assms(2) show ?thesis by (simp add: spec_next_id_def)
next
  case False
  with assms(2) have mem: "nextId w - 1 \<in> set (map item_id (inventory w))" by simp
  have le: "y \<le> nextId w - 1" if "y \<in> set (map item_id (inventory w))" for y
    using assms(1) that by (auto simp: ids_below_def list_all_iff)
  have "Max (set (map item_id (inventory w))) = nextId w - 1"
  proof (rule Max_eqI)
    show "finite (set (map item_id (inventory w)))" by (rule finite_set)
    show "y \<le> nextId w - 1" if "y \<in> set (map item_id (inventory w))" for y
      using that by (rule le)
    show "nextId w - 1 \<in> set (map item_id (inventory w))" by (rule mem)
  qed
  with False show ?thesis by (simp add: spec_next_id_def)
qed

lemma spec_next_id_le:
  assumes "ids_below w" and "1 \<le> nextId w"
  shows "spec_next_id (inventory w) \<le> nextId w"
proof (cases "inventory w = []")
  case True
  with assms(2) show ?thesis by (simp add: spec_next_id_def)
next
  case False
  have le: "\<forall>y\<in>set (map item_id (inventory w)). y \<le> nextId w - 1"
    using assms(1) by (auto simp: ids_below_def list_all_iff)
  have ne: "set (map item_id (inventory w)) \<noteq> {}" using False by simp
  have mx: "Max (set (map item_id (inventory w))) \<le> nextId w - 1"
    using le by (simp only: Max_le_iff [OF finite_set ne])
  have "spec_next_id (inventory w) = Max (set (map item_id (inventory w))) + 1"
    using False by (simp add: spec_next_id_def)
  with mx show ?thesis by linarith
qed

lemma foldl_max_Max:
  "xs \<noteq> [] \<Longrightarrow>
   foldl (\<lambda>mx it. max mx (item_id it)) a xs = max a (Max (set (map item_id xs)))"
proof (induction xs arbitrary: a)
  case Nil
  then show ?case by simp
next
  case (Cons x xs)
  show ?case
  proof (cases "xs = []")
    case True
    then show ?thesis by simp
  next
    case False
    then have "Max (set (map item_id (x # xs))) = max (item_id x) (Max (set (map item_id xs)))"
      by simp
    with Cons.IH [OF False, of "max a (item_id x)"] show ?thesis
      by (simp only: foldl_Cons max.assoc)
  qed
qed

lemma initial_nextId_spec:
  assumes "\<forall>it\<in>set xs. item_id it < 2 ^ 53"
  shows "initial_nextId xs = (if xs = [] then 1 else max 0 (Max (set (map item_id xs))) + 1)"
  by (simp add: initial_nextId_exact [OF assms] foldl_max_Max)

lemma boot_tight:
  assumes "\<forall>x\<in>set (loadInventory f). 0 \<le> item_id x"
    and "\<forall>x\<in>set (loadInventory f). item_id x < 2 ^ 53"
  shows "map item_id (inventory (boot f fs)) = [] \<and> nextId (boot f fs) = 1 \<or>
         nextId (boot f fs) - 1 \<in> set (map item_id (inventory (boot f fs)))"
proof (cases "loadInventory f")
  case Nil
  then show ?thesis by (simp add: boot_def initial_nextId_def)
next
  case (Cons x xs)
  let ?m = "foldl (\<lambda>mx it. max mx (item_id it)) 0 (loadInventory f)"
  have "?m \<in> set (map item_id (loadInventory f))"
  proof (cases "?m = 0")
    case False
    with foldl_max_mem [of 0 "loadInventory f"] show ?thesis by simp
  next
    case True
    have "item_id x \<le> ?m" by (rule foldl_max_upper) (simp add: Cons)
    moreover have "0 \<le> item_id x" using assms(1) by (simp add: Cons)
    ultimately have "item_id x = ?m" using True by simp
    then show ?thesis by (simp add: Cons)
  qed
  moreover have "initial_nextId (loadInventory f) = ?m + 1"
    using initial_nextId_exact [OF assms(2)] by (simp add: Cons)
  ultimately show ?thesis by (simp add: boot_def)
qed

lemma app_tight:
  assumes "req_method r \<noteq> DELETE"
    and "creates rv r \<longrightarrow> 0 \<le> nextId w \<and> nextId w < 2 ^ 53"
    and "map item_id (inventory w) = [] \<and> nextId w = 1 \<or>
         nextId w - 1 \<in> set (map item_id (inventory w))"
  shows "map item_id (inventory (snd (app rv opts w r))) = [] \<and> nextId (snd (app rv opts w r)) = 1 \<or>
         nextId (snd (app rv opts w r)) - 1 \<in> set (map item_id (inventory (snd (app rv opts w r))))"
proof (cases "creates rv r")
  case True
  with assms(2) have "\<bar>nextId w + 1\<bar> \<le> 2 ^ 53" by simp
  then have "round_double (nextId w + 1) = nextId w + 1" by (rule round_double_exact)
  with app_creates [OF True, of w opts] show ?thesis by auto
next
  case False
  with assms show ?thesis by (simp add: app_ids_unchanged app_nextId)
qed

lemma serve_tight:
  assumes "\<forall>r\<in>set rs. req_method r \<noteq> DELETE"
    and "0 \<le> nextId w" and "nextId w + int (length (filter (creates rv) rs)) \<le> 2 ^ 53"
    and "map item_id (inventory w) = [] \<and> nextId w = 1 \<or>
         nextId w - 1 \<in> set (map item_id (inventory w))"
  shows "map item_id (inventory (serve rv opts w rs)) = [] \<and> nextId (serve rv opts w rs) = 1 \<or>
         nextId (serve rv opts w rs) - 1 \<in> set (map item_id (inventory (serve rv opts w rs)))"
  using assms
proof (induction rs arbitrary: w)
  case Nil
  then show ?case by simp
next
  case (Cons r rs)
  from Cons.prems have nd: "req_method r \<noteq> DELETE" and rest: "\<forall>r\<in>set rs. req_method r \<noteq> DELETE"
    by simp_all
  have safe: "creates rv r \<longrightarrow> 0 \<le> nextId w \<and> nextId w < 2 ^ 53"
    using Cons.prems(2,3) by auto
  note tight = app_tight [OF nd safe Cons.prems(4), of opts]
  have step: "nextId (snd (app rv opts w r)) = nextId w + (if creates rv r then 1 else 0)"
  proof (cases "creates rv r")
    case True
    with safe have "\<bar>nextId w + 1\<bar> \<le> 2 ^ 53" by simp
    then have "round_double (nextId w + 1) = nextId w + 1" by (rule round_double_exact)
    with True show ?thesis by (simp add: app_nextId)
  next
    case False
    then show ?thesis by (simp add: app_nextId)
  qed
  with Cons.prems(2,3) have "0 \<le> nextId (snd (app rv opts w r))"
    and "nextId (snd (app rv opts w r)) + int (length (filter (creates rv) rs)) \<le> 2 ^ 53"
    by (simp_all split: if_splits)
  from Cons.IH [OF rest this tight] show ?case by simp
qed

text \<open>
  C1, as the code has it, within the range in which the counter counts exactly (the
  persisted ids are below \<open>2 ^ 53\<close> and the counter does not pass \<open>2 ^ 53\<close>). The id
  given to a new item is the value of the counter \<^verbatim>\<open>nextId\<close>: the start value, which
  is one more than the largest of 0 and the persisted ids, or 1 for an empty store,
  plus the number of items registered since. It is larger than every id in the store,
  so it is at least the largest existing id plus one, and it is equal to it as long as
  no delete request has been served and the persisted ids are not negative. The new
  item is appended to the store, is found by its id, is returned by a get-by-id
  request and is the last entry of a listing.
\<close>

theorem register_assigns_counter:
  assumes "req_method req = POST" and "path req = [''register'']"
    and "multer_body req = Some b" and "\<not> blank_name (body_inventory_name b)"
    and "\<forall>x\<in>set (loadInventory f). item_id x < 2 ^ 53"
    and "initial_nextId (loadInventory f) + int (length (filter (creates rv) rs)) \<le> 2 ^ 53"
  shows "\<exists>it.
     fst (app rv opts (serve rv opts (boot f fs) rs) req) = Json 201 (ItemBody (itemToDTO req it)) \<and>
     inventory (snd (app rv opts (serve rv opts (boot f fs) rs) req))
       = inventory (serve rv opts (boot f fs) rs) @ [it] \<and>
     item_id it = initial_nextId (loadInventory f) + int (length (filter (creates rv) rs)) \<and>
     initial_nextId (loadInventory f)
       = (if loadInventory f = [] then 1
          else max 0 (Max (set (map item_id (loadInventory f)))) + 1) \<and>
     (\<forall>x\<in>set (inventory (serve rv opts (boot f fs) rs)). item_id x < item_id it) \<and>
     spec_next_id (inventory (serve rv opts (boot f fs) rs)) \<le> item_id it \<and>
     ((\<forall>r\<in>set rs. req_method r \<noteq> DELETE) \<and> (\<forall>x\<in>set (loadInventory f). 0 \<le> item_id x) \<longrightarrow>
        item_id it = spec_next_id (inventory (serve rv opts (boot f fs) rs))) \<and>
     findItem (snd (app rv opts (serve rv opts (boot f fs) rs) req)) (Finite (item_id it))
       = Some it \<and>
     (\<forall>r. req_method r = GET \<and> path r = [''inventory'', show_int (item_id it)] \<longrightarrow>
        fst (app rv opts (snd (app rv opts (serve rv opts (boot f fs) rs) req)) r)
          = Json 200 (ItemBody (itemToDTO r it))) \<and>
     (\<forall>r. req_method r = GET \<and> path r = [''inventory''] \<longrightarrow>
        fst (app rv opts (snd (app rv opts (serve rv opts (boot f fs) rs) req)) r)
          = Json 200 (ListBody (map (itemToDTO r) (inventory (serve rv opts (boot f fs) rs))
                                 @ [itemToDTO r it])))"
proof -
  let ?w = "serve rv opts (boot f fs) rs"
  let ?w' = "snd (app rv opts ?w req)"
  from assms(1-4) have cr: "creates rv req" by (simp add: creates_def)
  from app_creates [OF cr, of ?w opts] obtain it where id: "item_id it = nextId ?w"
    and res: "fst (app rv opts ?w req) = Json 201 (ItemBody (itemToDTO req it))"
    and inv: "inventory ?w' = inventory ?w @ [it]" by auto
  have start: "nextId (boot f fs) = initial_nextId (loadInventory f)" by (simp add: boot_def)
  have pos: "0 \<le> nextId (boot f fs)" using boot_nextId_pos [OF assms(5), of fs] by simp
  have range: "nextId (boot f fs) + int (length (filter (creates rv) rs)) \<le> 2 ^ 53"
    using assms(6) by (simp add: start)
  have count: "item_id it = initial_nextId (loadInventory f) + int (length (filter (creates rv) rs))"
    by (simp add: id serve_nextId [OF pos range] start)
  have below: "ids_below ?w"
    using boot_ids_below [OF assms(5)] pos range by (rule serve_ids_below)
  then have less: "\<forall>x\<in>set (inventory ?w). item_id x < item_id it"
    by (simp add: ids_below_def list_all_iff id)
  have one: "1 \<le> nextId ?w"
    using boot_nextId_pos [OF assms(5), of fs] by (simp add: serve_nextId [OF pos range])
  with below have atleast: "spec_next_id (inventory ?w) \<le> item_id it"
    by (simp add: id spec_next_id_le)
  have exact: "item_id it = spec_next_id (inventory ?w)"
    if "\<forall>r\<in>set rs. req_method r \<noteq> DELETE" and "\<forall>x\<in>set (loadInventory f). 0 \<le> item_id x"
    using spec_next_id_tight [OF below
        serve_tight [OF that(1) pos range boot_tight [OF that(2) assms(5)]]]
    by (simp add: id)
  have fnd: "find (\<lambda>x. item_id x = item_id it) (inventory ?w @ [it]) = Some it"
    using less by (intro find_append_last) auto
  then have found: "findItem ?w' (Finite (item_id it)) = Some it"
    by (simp add: findItem_def inv)
  have "\<bar>item_id it\<bar> \<le> 2 ^ 53"
    using one serve_nextId [OF pos range] range by (simp add: id)
  then have parse: "parseInt (show_int (item_id it)) = Finite (item_id it)"
    by (simp add: parseInt_show_int to_number_exact)
  have get: "fst (app rv opts ?w' r) = Json 200 (ItemBody (itemToDTO r it))"
    if "req_method r = GET" and "path r = [''inventory'', show_int (item_id it)]" for r
    using that found
    by (simp add: app_get_item show_int_nonempty get_item_def parse)
  have lst: "fst (app rv opts ?w' r)
      = Json 200 (ListBody (map (itemToDTO r) (inventory ?w) @ [itemToDTO r it]))"
    if "req_method r = GET" and "path r = [''inventory'']" for r
    using that by (simp add: app_list_inventory list_inventory_def inv)
  note spec = initial_nextId_spec [OF assms(5)]
  show ?thesis
    using res inv count spec less atleast exact found get lst
    by (intro exI [of _ it] conjI) (assumption | blast)+
qed

text \<open>
  The claim as stated fails after a deletion: with the items 1 and 2 registered and
  item 2 deleted, the largest id in the store is 1, but the next item gets the id 3.
\<close>

theorem register_id_counterexample:
  "inventory after_delete_world
     = [\<lparr>item_id = 1, inventory_name = ''Drill'', description = [], photoFilename = None\<rparr>] \<and>
   spec_next_id (inventory after_delete_world) = 2 \<and>
   fst (app Base relative_cache after_delete_world (register_request ''Hammer''))
     = Json 201 (ItemBody \<lparr>dto_id = 3, dto_inventory_name = ''Hammer'', dto_description = [],
                             photo_url = None\<rparr>)"
  by (simp add: after_delete_world_fields spec_next_id_def register_example)

theorem register_assigns_counter_witness:
  "req_method (register_request ''Hammer'') = POST \<and>
   path (register_request ''Hammer'') = [''register''] \<and>
   multer_body (register_request ''Hammer'')
     = Some (no_fields\<lparr>body_inventory_name := Some ''Hammer''\<rparr>) \<and>
   \<not> blank_name (body_inventory_name (no_fields\<lparr>body_inventory_name := Some ''Hammer''\<rparr>)) \<and>
   loadInventory Absent = [] \<and>
   initial_nextId (loadInventory Absent) + int (length (filter (creates Base)
       [register_request ''Drill'', register_request ''Saw'', delete_request ''2'']))
     \<le> 2 ^ 53 \<and>
   (\<exists>it. fst (app Base relative_cache
               (serve Base relative_cache (boot Absent Map.empty)
                  [register_request ''Drill'', register_request ''Saw'', delete_request ''2''])
               (register_request ''Hammer''))
            = Json 201 (ItemBody (itemToDTO (register_request ''Hammer'') it)) \<and>
         item_id it = 3)"
proof -
  let ?rs = "[register_request ''Drill'', register_request ''Saw'', delete_request ''2'']"
  let ?b = "no_fields\<lparr>body_inventory_name := Some ''Hammer''\<rparr>"
  have h1: "req_method (register_request ''Hammer'') = POST"
    by (simp add: register_request_def)
  have h2: "path (register_request ''Hammer'') = [''register'']"
    by (simp add: register_request_def)
  have h3: "multer_body (register_request ''Hammer'') = Some ?b"
    by (simp add: register_request_def multer_body_def plain_request_def)
  have h4: "\<not> blank_name (body_inventory_name ?b)"
    by (simp add: blank_name_def is_white_space_def)
  have h5: "\<forall>x\<in>set (loadInventory Absent). item_id x < 2 ^ 53"
    by (simp add: loadInventory_def)
  have n: "initial_nextId (loadInventory Absent) + int (length (filter (creates Base) ?rs)) = 3"
    by (simp add: initial_nextId_def loadInventory_def creates_examples)
  then have h6: "initial_nextId (loadInventory Absent)
      + int (length (filter (creates Base) ?rs)) \<le> 2 ^ 53"
    by simp
  from register_assigns_counter [OF h1 h2 h3 h4 h5 h6, of relative_cache Map.empty]
  obtain it where c:
    "fst (app Base relative_cache (serve Base relative_cache (boot Absent Map.empty) ?rs)
            (register_request ''Hammer''))
       = Json 201 (ItemBody (itemToDTO (register_request ''Hammer'') it)) \<and>
     inventory (snd (app Base relative_cache (serve Base relative_cache (boot Absent Map.empty) ?rs)
            (register_request ''Hammer'')))
       = inventory (serve Base relative_cache (boot Absent Map.empty) ?rs) @ [it] \<and>
     item_id it = initial_nextId (loadInventory Absent) + int (length (filter (creates Base) ?rs))"
    by (elim exE conjE) (intro that conjI)
  from c have a: "fst (app Base relative_cache (serve Base relative_cache (boot Absent Map.empty) ?rs)
            (register_request ''Hammer''))
       = Json 201 (ItemBody (itemToDTO (register_request ''Hammer'') it))"
    by (rule conjunct1)
  from c [THEN conjunct2, THEN conjunct2] n have b: "item_id it = 3" by (simp only:)
  from a b have "\<exists>it. fst (app Base relative_cache
               (serve Base relative_cache (boot Absent Map.empty) ?rs)
               (register_request ''Hammer''))
            = Json 201 (ItemBody (itemToDTO (register_request ''Hammer'') it)) \<and>
         item_id it = 3"
    by (intro exI [of _ it] conjI)
  moreover have h0: "loadInventory Absent = []" by (simp add: loadInventory_def)
  ultimately show ?thesis using h1 h2 h3 h4 h6 by (intro conjI)
qed

section \<open>Search\<close>

lemma to_number_not_NaN [simp]: "to_number n \<noteq> NaN"
  by (simp add: to_number_def)

lemma parseInt_NaN_iff:
  "parseInt s = NaN \<longleftrightarrow>
   takeWhile is_digit (snd (strip_sign (dropWhile is_white_space s))) = []"
  by (cases "strip_sign (dropWhile is_white_space s)") (simp add: parseInt_def Let_def)

lemma numeric_not_NaN:
  assumes "numeric s"
  shows "parseInt s \<noteq> NaN"
proof (cases s)
  case Nil
  with assms show ?thesis by (simp add: numeric_def)
next
  case (Cons c r)
  show ?thesis
  proof (cases "c = CHR ''-'' \<or> c = CHR ''+''")
    case True
    with assms Cons obtain d r' where r: "r = d # r'" and d: "is_digit d"
      by (cases r) (auto simp: numeric_def)
    from True show ?thesis
      by (auto simp: parseInt_NaN_iff Cons r d strip_sign_def sign_not_space)
  next
    case False
    with assms Cons have d: "is_digit c" by (simp add: numeric_def)
    with False show ?thesis
      by (simp add: parseInt_NaN_iff Cons strip_sign_def digit_not_space_or_sign)
  qed
qed

lemma search_no_body:
  "body req = None \<Longrightarrow> search w req = (Uncaught TypeError, w)"
  by (simp add: search_def)

lemma search_invalid:
  "body req = Some b \<Longrightarrow> parseInt (to_js_string (body_id b)) = NaN \<Longrightarrow>
   search w req = (Json 400 (ErrorBody ''Invalid id''), w)"
  by (simp add: search_def)

lemma search_unknown:
  "body req = Some b \<Longrightarrow> parseInt (to_js_string (body_id b)) \<noteq> NaN \<Longrightarrow>
   findItem w (parseInt (to_js_string (body_id b))) = None \<Longrightarrow>
   search w req = (Json 404 (ErrorBody ''Item not found''), w)"
  by (simp add: search_def)

lemma search_known:
  "body req = Some b \<Longrightarrow> parseInt (to_js_string (body_id b)) \<noteq> NaN \<Longrightarrow>
   findItem w (parseInt (to_js_string (body_id b))) = Some it \<Longrightarrow>
   search w req =
     (Json 200 (SearchBody
        \<lparr>sr_id = item_id it,
         sr_inventory_name = inventory_name it,
         sr_description = description it,
         has_photo = truthy (photoFilename it),
         sr_photo_url =
           (if body_has_photo b = Some ''on'' \<and> truthy (photoFilename it)
            then Some (PhotoUrl (baseUrl req) (item_id it)) else None)\<rparr>), w)"
  by (simp add: search_def)

text \<open>
  The search route where it does what the specification says: for a request with a
  parsed body, a missing id field is answered 400, and a numeric id field is never
  answered 400: the answer is 404 when no item has the id that was read and 200
  otherwise, with \<open>has_photo\<close> and \<open>photo_url\<close> as described.
\<close>

lemma search_numeric_id:
  assumes "req_method req = POST" and "path req = [''search'']" and "body req = Some b"
  shows "(body_id b = None \<longrightarrow> app rv opts w req = (Json 400 (ErrorBody ''Invalid id''), w)) \<and>
         (\<forall>s. body_id b = Some s \<and> numeric s \<and> findItem w (parseInt s) = None \<longrightarrow>
            app rv opts w req = (Json 404 (ErrorBody ''Item not found''), w)) \<and>
         (\<forall>s it. body_id b = Some s \<and> numeric s \<and> findItem w (parseInt s) = Some it \<longrightarrow>
            (\<exists>r. app rv opts w req = (Json 200 (SearchBody r), w) \<and>
               sr_id r = item_id it \<and>
               has_photo r = truthy (photoFilename it) \<and>
               (sr_photo_url r \<noteq> None \<longleftrightarrow>
                  body_has_photo b = Some ''on'' \<and> truthy (photoFilename it))))"
proof (intro conjI allI impI)
  assume "body_id b = None"
  then show "app rv opts w req = (Json 400 (ErrorBody ''Invalid id''), w)"
    using assms by (simp add: app_search search_invalid to_js_string_def parseInt_examples)
next
  fix s
  assume a: "body_id b = Some s \<and> numeric s \<and> findItem w (parseInt s) = None"
  then have "parseInt s \<noteq> NaN" by (simp add: numeric_not_NaN)
  with a assms show "app rv opts w req = (Json 404 (ErrorBody ''Item not found''), w)"
    by (simp add: app_search search_unknown to_js_string_def)
next
  fix s it
  assume a: "body_id b = Some s \<and> numeric s \<and> findItem w (parseInt s) = Some it"
  then have "parseInt s \<noteq> NaN" by (simp add: numeric_not_NaN)
  with a assms show "\<exists>r. app rv opts w req = (Json 200 (SearchBody r), w) \<and>
               sr_id r = item_id it \<and>
               has_photo r = truthy (photoFilename it) \<and>
               (sr_photo_url r \<noteq> None \<longleftrightarrow>
                  body_has_photo b = Some ''on'' \<and> truthy (photoFilename it))"
    by (simp add: app_search search_known [where b = b and it = it] to_js_string_def)
qed

text \<open>A search request that carries no parsed body is not answered 400: the handler throws.\<close>

lemma search_without_body_throws:
  "app Base relative_cache drill_world (plain_request\<lparr>req_method := POST, path := [''search'']\<rparr>)
     = (Uncaught TypeError, drill_world)"
  by (simp add: app_search search_no_body plain_request_def)

text \<open>
  C5 fails on the code for an id field that begins with digits and goes on with other
  characters. The handler guards against invalid ids with
  \<^verbatim>\<open>Number.isNaN(parseInt(req.body.id, 10))\<close>, but \<^verbatim>\<open>parseInt\<close> reads the digits at the
  start of the field and ignores the rest: the search for the field \<^verbatim>\<open>1abc\<close>, which is
  not numeric, is answered 200 with item 1 instead of 400.
\<close>

theorem search_accepts_non_numeric_id:
  "\<not> numeric ''1abc'' \<and>
   fst (app Base relative_cache drill_world (search_request (Some ''1abc'') None))
     = Json 200 (SearchBody
         \<lparr>sr_id = 1, sr_inventory_name = ''Drill'', sr_description = [], has_photo = True,
          sr_photo_url = None\<rparr>)"
proof -
  have a: "\<not> numeric ''1abc''" by (simp add: numeric_def is_digit_def)
  have b: "fst (app Base relative_cache drill_world (search_request (Some ''1abc'') None))
     = Json 200 (SearchBody
         \<lparr>sr_id = 1, sr_inventory_name = ''Drill'', sr_description = [], has_photo = True,
          sr_photo_url = None\<rparr>)"
    by (simp add: app_search search_def search_request_def plain_request_def no_fields_def
        to_js_string_def parseInt_examples findItem_def drill_world_fields truthy_def)
  from a b show ?thesis by simp
qed

section \<open>The photo route\<close>

lemma get_photo_no_item:
  "findItem w (parseInt idp) = None \<Longrightarrow>
   get_photo rv opts w req idp = (Json 404 (ErrorBody ''Photo not found''), w)"
  by (simp add: get_photo_def)

lemma get_photo_no_reference:
  "findItem w (parseInt idp) = Some it \<Longrightarrow> \<not> truthy (photoFilename it) \<Longrightarrow>
   get_photo rv opts w req idp = (Json 404 (ErrorBody ''Photo not found''), w)"
  by (simp add: get_photo_def)

lemma stored_photo_path [simp]: "stored (photo_path_of rv opts name) = name"
  by (cases rv) (simp_all add: photo_path_of_def path_join_def path_resolve_def)

lemma absolute_photo_path:
  "absolute (photo_path_of rv opts name) \<longleftrightarrow> rv = WithSwagger \<or> isAbsolute (cache opts)"
  by (cases rv) (simp_all add: photo_path_of_def path_join_def path_resolve_def)

lemma hidden_photo_path:
  "hidden (photo_path_of rv opts name) \<longleftrightarrow> cache_hidden opts \<or> dot_name name"
  by (cases rv) (simp_all add: photo_path_of_def path_join_def path_resolve_def)

lemma get_photo_no_file:
  "findItem w (parseInt idp) = Some it \<Longrightarrow> photoFilename it = Some name \<Longrightarrow> name \<noteq> [] \<Longrightarrow>
   files w name = None \<Longrightarrow>
   get_photo rv opts w req idp = (Json 404 (ErrorBody ''Photo file not found''), w)"
  by (simp add: get_photo_def truthy_def)

lemma get_photo_file:
  "findItem w (parseInt idp) = Some it \<Longrightarrow> photoFilename it = Some name \<Longrightarrow> name \<noteq> [] \<Longrightarrow>
   files w name = Some b \<Longrightarrow>
   get_photo rv opts w req idp =
     (if \<not> (rv = WithSwagger \<or> isAbsolute (cache opts)) then Uncaught TypeError
      else if cache_hidden opts \<or> dot_name name then ErrorPage 404
      else SentFile 200 ''image/jpeg'' b, w)"
  by (simp add: get_photo_def truthy_def sendFile_def absolute_photo_path hidden_photo_path)

text \<open>
  The photo route as C8 describes it, for the later revision and for the earlier one
  when the cache directory is given as an absolute path, as long as no segment of the
  path of the file begins with a dot: 404 when the item is absent, has no photo
  reference or its file does not exist, and otherwise 200 with the content type
  \<^verbatim>\<open>image/jpeg\<close> and the bytes of the file.
\<close>

lemma photo_route_serves:
  assumes "req_method req = GET" and "path req = [''inventory'', idp, ''photo'']"
    and "idp \<noteq> []" and "rv = WithSwagger \<or> isAbsolute (cache opts)"
  shows "(findItem w (parseInt idp) = None \<longrightarrow>
            app rv opts w req = (Json 404 (ErrorBody ''Photo not found''), w)) \<and>
         (\<forall>it. findItem w (parseInt idp) = Some it \<and> \<not> truthy (photoFilename it) \<longrightarrow>
            app rv opts w req = (Json 404 (ErrorBody ''Photo not found''), w)) \<and>
         (\<forall>it name. findItem w (parseInt idp) = Some it \<and> photoFilename it = Some name \<and>
              name \<noteq> [] \<and> files w name = None \<longrightarrow>
            app rv opts w req = (Json 404 (ErrorBody ''Photo file not found''), w)) \<and>
         (\<forall>it name b. findItem w (parseInt idp) = Some it \<and> photoFilename it = Some name \<and>
              name \<noteq> [] \<and> files w name = Some b \<and> \<not> cache_hidden opts \<and> \<not> dot_name name \<longrightarrow>
            app rv opts w req = (SentFile 200 ''image/jpeg'' b, w))"
  using assms
  by (simp add: app_get_photo get_photo_no_item get_photo_no_reference get_photo_no_file
      get_photo_file)

text \<open>
  C8 fails in the earlier revision when the cache directory is given as a relative
  path. The item exists, it has a photo reference and the file exists, but
  \<^verbatim>\<open>path.join\<close> yields a relative path and \<^verbatim>\<open>res.sendFile\<close> throws, so the request
  is answered with status 500. The later revision, which uses \<^verbatim>\<open>path.resolve\<close>, sends
  the file in the same state.
\<close>

theorem photo_route_relative_cache_throws:
  "findItem drill_world (parseInt ''1'')
     = Some \<lparr>item_id = 1, inventory_name = ''Drill'', description = [],
              photoFilename = Some ''photo_1730505600000_drill.jpg''\<rparr> \<and>
   files drill_world ''photo_1730505600000_drill.jpg'' = Some ''JFIF'' \<and>
   fst (app Base relative_cache drill_world (photo_request ''1'')) = Uncaught TypeError \<and>
   fst (app WithSwagger relative_cache drill_world (photo_request ''1''))
     = SentFile 200 ''image/jpeg'' ''JFIF''"
proof -
  let ?it = "\<lparr>item_id = 1, inventory_name = ''Drill'', description = [],
              photoFilename = Some ''photo_1730505600000_drill.jpg''\<rparr>"
  have f: "findItem drill_world (parseInt ''1'') = Some ?it"
    by (simp add: drill_world_fields findItem_def parseInt_examples)
  have b: "files drill_world ''photo_1730505600000_drill.jpg'' = Some ''JFIF''"
    by (simp add: drill_world_fields)
  have r: "req_method (photo_request ''1'') = GET"
    "path (photo_request ''1'') = [''inventory'', ''1'', ''photo'']"
    by (simp_all add: photo_request_def plain_request_def)
  have rel: "\<not> isAbsolute (cache relative_cache)" "\<not> cache_hidden relative_cache"
    "\<not> dot_name ''photo_1730505600000_drill.jpg''"
    by (simp_all add: relative_cache_def isAbsolute_def dot_name_def)
  have run: "app rv relative_cache drill_world (photo_request ''1'')
      = (if rv = WithSwagger then SentFile 200 ''image/jpeg'' ''JFIF'' else Uncaught TypeError,
         drill_world)" for rv
    using get_photo_file [OF f _ _ b, of rv relative_cache "photo_request ''1''"] rel
    by (simp add: app_get_photo r)
  from f b show ?thesis by (simp add: run)
qed

section \<open>Methods and paths\<close>

lemma route_of_recognized:
  assumes "recognized_path p"
  shows "route_of rv p =
     (case p of
        [a] \<Rightarrow> if matches ''register'' a then RegisterRoute
               else if matches ''inventory'' a then InventoryRoute else SearchRoute
      | [a, i] \<Rightarrow> ItemRoute i
      | [a, i, c] \<Rightarrow> PhotoRoute i
      | _ \<Rightarrow> NoRoute)"
proof (cases p)
  case Nil
  with assms show ?thesis by (simp add: recognized_path_def)
next
  case p1: (Cons a q)
  show ?thesis
  proof (cases q)
    case Nil
    with assms p1 consider "matches ''register'' a" | "matches ''inventory'' a"
      | "matches ''search'' a"
      by (auto simp: recognized_path_def)
    then show ?thesis
    proof cases
      case 1
      with matches_exclusive(1) [OF 1] show ?thesis by (simp add: p1 Nil route_of_def)
    next
      case 2
      with matches_exclusive(2) [OF 2] show ?thesis by (simp add: p1 Nil route_of_def)
    next
      case 3
      with matches_exclusive(3) [OF 3] show ?thesis by (simp add: p1 Nil route_of_def)
    qed
  next
    case p2: (Cons i q')
    show ?thesis
    proof (cases q')
      case Nil
      with assms p1 p2 have m: "matches ''inventory'' a" and "i \<noteq> []"
        by (simp_all add: recognized_path_def)
      with matches_exclusive(2) [OF m] show ?thesis by (simp add: p1 p2 Nil route_of_def)
    next
      case p3: (Cons c q'')
      with assms p1 p2 have "q'' = []" and m: "matches ''inventory'' a" and "i \<noteq> []"
        and "matches ''photo'' c"
        by (simp_all add: recognized_path_def split: list.splits)
      with matches_exclusive(2) [OF m] show ?thesis by (simp add: p1 p2 p3 route_of_def)
    qed
  qed
qed

lemma matches_clash:
  "matches ''register'' a \<Longrightarrow> matches ''inventory'' a \<Longrightarrow> False"
  "matches ''search'' a \<Longrightarrow> matches ''inventory'' a \<Longrightarrow> False"
  by (auto dest!: matches_length)

lemma route_of_form:
  assumes "form_path p = Some name"
  shows "(name = ''RegisterForm.html'' \<and> route_of rv p = RegisterForm) \<or>
         (name = ''SearchForm.html'' \<and> route_of rv p = SearchForm)"
proof -
  from assms obtain a where p: "p = [a]"
    by (auto simp: form_path_def split: list.splits)
  from assms show ?thesis
    by (auto simp: p form_path_def route_of_def split: if_splits)
qed

lemma form_not_recognized:
  assumes "form_path p = Some name"
  shows "\<not> recognized_path p" and "\<not> under_docs p"
proof -
  from assms obtain a where p: "p = [a]"
    by (auto simp: form_path_def split: list.splits)
  from assms have "matches ''RegisterForm.html'' a \<or> matches ''SearchForm.html'' a"
    by (auto simp: p form_path_def split: if_splits)
  then show "\<not> recognized_path p" and "\<not> under_docs p"
    using matches_exclusive(4,5) [of a] by (auto simp: p recognized_path_def under_docs_def)
qed

lemma under_docs_not_recognized: "under_docs p \<Longrightarrow> \<not> recognized_path p"
proof (cases p)
  case Nil
  then show ?thesis by (simp add: recognized_path_def)
next
  case (Cons a q)
  assume "under_docs p"
  then have "matches ''docs'' a" by (simp add: Cons under_docs_def)
  then show ?thesis
    using matches_exclusive(6) [of a]
    by (auto simp: Cons recognized_path_def split: list.splits)
qed

lemma route_of_docs:
  assumes "under_docs p"
  shows "route_of WithSwagger p = Docs"
proof (cases p)
  case Nil
  with assms show ?thesis by (simp add: under_docs_def)
next
  case (Cons a q)
  with assms have "matches ''docs'' a" by (simp add: under_docs_def)
  then show ?thesis
    using matches_exclusive(6) [of a]
    by (auto simp: Cons route_of_def split: list.splits)
qed

lemma route_of_other:
  assumes "\<not> recognized_path p" and "form_path p = None"
    and "\<not> (rv = WithSwagger \<and> under_docs p)"
  shows "route_of rv p = NoRoute"
proof (cases p)
  case Nil
  then show ?thesis by (simp add: route_of_def)
next
  case p1: (Cons a q)
  from assms(3) have d: "\<not> (rv = WithSwagger \<and> matches ''docs'' a)"
    by (simp add: p1 under_docs_def)
  show ?thesis
  proof (cases q)
    case Nil
    from assms(1) have "\<not> matches ''register'' a" "\<not> matches ''inventory'' a"
      "\<not> matches ''search'' a"
      by (simp_all add: p1 Nil recognized_path_def)
    moreover from assms(2) have "\<not> matches ''RegisterForm.html'' a"
      "\<not> matches ''SearchForm.html'' a"
      by (simp_all add: p1 Nil form_path_def split: if_splits)
    ultimately show ?thesis using d by (simp add: p1 Nil route_of_def)
  next
    case p2: (Cons i q')
    show ?thesis
    proof (cases q')
      case Nil
      from assms(1) have "\<not> (matches ''inventory'' a \<and> i \<noteq> [])"
        by (simp add: p1 p2 Nil recognized_path_def)
      then show ?thesis using d by (simp add: p1 p2 Nil route_of_def)
    next
      case p3: (Cons c q'')
      show ?thesis
      proof (cases q'')
        case Nil
        from assms(1) have "\<not> (matches ''inventory'' a \<and> i \<noteq> [] \<and> matches ''photo'' c)"
          by (simp add: p1 p2 p3 Nil recognized_path_def)
        then show ?thesis using d by (simp add: p1 p2 p3 Nil route_of_def)
      next
        case (Cons e q3)
        then show ?thesis using d by (simp add: p1 p2 p3 route_of_def)
      qed
    qed
  qed
qed

lemma send_form_cases:
  assumes "name = ''RegisterForm.html'' \<or> name = ''SearchForm.html''"
  shows "send_form opts w name =
     (if script_hidden opts then ErrorPage 404
      else case script_files opts name of
             None \<Rightarrow> ErrorPage 404
           | Some b \<Rightarrow> SentFile 200 ''text/html'' b, w)"
  using assms by (auto simp: send_form_def sendFile_def dot_name_def)

text \<open>
  C9, as the code has it. Paths are read as Express reads them, without regard to the
  case of the letters. On the five paths of the route table a request whose method is
  not listed for the path, other than a HEAD request on a path that lists GET, is
  answered 405. A request to any other path is answered 404 with the body
  \<^verbatim>\<open>{error: 'Not Found'}\<close>, with two exceptions that the script registers itself. GET
  and HEAD requests for \<^verbatim>\<open>/RegisterForm.html\<close> and \<^verbatim>\<open>/SearchForm.html\<close> are answered by
  sending that file from the directory of the script: with status 200 and the content
  type \<^verbatim>\<open>text/html\<close> when the file is there, with the 404 page of Express when it is
  missing or the directory is hidden. In the later revision every request to
  \<^verbatim>\<open>/docs\<close> and below is answered by the Swagger UI.
\<close>

theorem unlisted_method_or_path:
  "(recognized_path (path req) \<and> req_method req \<notin> set (listed_methods (path req)) \<and>
      \<not> (req_method req = HEAD \<and> GET \<in> set (listed_methods (path req))) \<longrightarrow>
        app rv opts w req = (Json 405 (ErrorBody ''Method Not Allowed''), w)) \<and>
   (\<not> recognized_path (path req) \<and>
      \<not> (form_path (path req) \<noteq> None \<and> (req_method req = GET \<or> req_method req = HEAD)) \<and>
      \<not> (rv = WithSwagger \<and> under_docs (path req)) \<longrightarrow>
        app rv opts w req = (Json 404 (ErrorBody ''Not Found''), w)) \<and>
   (\<forall>name. form_path (path req) = Some name \<and>
        (req_method req = GET \<or> req_method req = HEAD) \<longrightarrow>
      \<not> recognized_path (path req) \<and>
      (script_hidden opts \<or> script_files opts name = None \<longrightarrow>
         app rv opts w req = (ErrorPage 404, w)) \<and>
      (\<forall>b. \<not> script_hidden opts \<and> script_files opts name = Some b \<longrightarrow>
         app rv opts w req = (SentFile 200 ''text/html'' b, w))) \<and>
   (rv = WithSwagger \<and> under_docs (path req) \<longrightarrow>
      \<not> recognized_path (path req) \<and> app rv opts w req = (SwaggerUi, w))"
proof (intro conjI allI impI)
  assume a: "recognized_path (path req) \<and> req_method req \<notin> set (listed_methods (path req)) \<and>
      \<not> (req_method req = HEAD \<and> GET \<in> set (listed_methods (path req)))"
  then have rec: "recognized_path (path req)" by simp
  note rt = route_of_recognized [OF rec, of rv]
  from a show "app rv opts w req = (Json 405 (ErrorBody ''Method Not Allowed''), w)"
    by (auto simp: app_def Let_def rt listed_methods_def recognized_path_def
        get_route_handles_def method_not_allowed_def split: list.splits if_splits
        dest: matches_clash)
next
  assume a: "\<not> recognized_path (path req) \<and>
      \<not> (form_path (path req) \<noteq> None \<and> (req_method req = GET \<or> req_method req = HEAD)) \<and>
      \<not> (rv = WithSwagger \<and> under_docs (path req))"
  show "app rv opts w req = (Json 404 (ErrorBody ''Not Found''), w)"
  proof (cases "form_path (path req)")
    case None
    with a have "route_of rv (path req) = NoRoute" by (simp add: route_of_other)
    then show ?thesis by (simp add: app_def not_found_def)
  next
    case (Some name)
    with a have m: "\<not> get_route_handles (req_method req)"
      by (simp add: get_route_handles_def)
    from route_of_form [OF Some, of rv] m show ?thesis
      by (auto simp: app_def not_found_def)
  qed
next
  fix name
  assume a: "form_path (path req) = Some name \<and> (req_method req = GET \<or> req_method req = HEAD)"
  then have f: "form_path (path req) = Some name"
    and m: "get_route_handles (req_method req)"
    by (simp_all add: get_route_handles_def)
  from f show "\<not> recognized_path (path req)" by (rule form_not_recognized)
  from route_of_form [OF f, of rv] m
  have run: "app rv opts w req = send_form opts w name
      \<and> (name = ''RegisterForm.html'' \<or> name = ''SearchForm.html'')"
    by (auto simp: app_def)
  then have res: "app rv opts w req =
     (if script_hidden opts then ErrorPage 404
      else case script_files opts name of
             None \<Rightarrow> ErrorPage 404
           | Some b \<Rightarrow> SentFile 200 ''text/html'' b, w)"
    using send_form_cases [of name opts w] by simp
  { assume "script_hidden opts \<or> script_files opts name = None"
    then show "app rv opts w req = (ErrorPage 404, w)" by (auto simp: res) }
  { fix b assume "\<not> script_hidden opts \<and> script_files opts name = Some b"
    then show "app rv opts w req = (SentFile 200 ''text/html'' b, w)" by (simp add: res) }
next
  assume a: "rv = WithSwagger \<and> under_docs (path req)"
  then show "\<not> recognized_path (path req)" by (simp add: under_docs_not_recognized)
  from a show "app rv opts w req = (SwaggerUi, w)"
    by (simp add: app_def route_of_docs)
qed

text \<open>
  The claim as stated fails for paths outside the route table that the script answers
  itself. A GET request for \<^verbatim>\<open>/RegisterForm.html\<close> is answered with the file when it is
  in the directory of the script, and with the 404 page of Express, not the JSON error
  body, when it is not; in the later revision a request to \<^verbatim>\<open>/docs\<close> is answered by the
  Swagger UI.
\<close>

theorem unlisted_path_counterexample:
  "\<not> recognized_path [''RegisterForm.html''] \<and>
   fst (app Base with_form drill_world (plain_request\<lparr>path := [''RegisterForm.html'']\<rparr>))
     = SentFile 200 ''text/html'' ''<form>'' \<and>
   fst (app Base relative_cache drill_world (plain_request\<lparr>path := [''RegisterForm.html'']\<rparr>))
     = ErrorPage 404 \<and>
   \<not> recognized_path [''docs''] \<and>
   fst (app WithSwagger relative_cache drill_world (plain_request\<lparr>path := [''docs'']\<rparr>))
     = SwaggerUi"
proof -
  have a: "\<not> recognized_path [''RegisterForm.html'']" "\<not> recognized_path [''docs'']"
    using matches_length [of "''register''" "''RegisterForm.html''"]
      matches_length [of "''inventory''" "''RegisterForm.html''"]
      matches_length [of "''search''" "''RegisterForm.html''"]
      matches_length [of "''register''" "''docs''"]
      matches_length [of "''inventory''" "''docs''"]
      matches_length [of "''search''" "''docs''"]
    by (auto simp: recognized_path_def)
  have r: "route_of Base [''RegisterForm.html''] = RegisterForm"
    by (simp add: route_of_def)
  have d: "route_of WithSwagger [''docs''] = Docs"
    by (simp add: route_of_docs under_docs_def)
  have b: "fst (app Base with_form drill_world (plain_request\<lparr>path := [''RegisterForm.html'']\<rparr>))
     = SentFile 200 ''text/html'' ''<form>''"
    by (simp add: app_def r plain_request_def get_route_handles_def send_form_cases
        with_form_def relative_cache_def)
  have c: "fst (app Base relative_cache drill_world
                  (plain_request\<lparr>path := [''RegisterForm.html'']\<rparr>)) = ErrorPage 404"
    by (simp add: app_def r plain_request_def get_route_handles_def send_form_cases
        relative_cache_def)
  have e: "fst (app WithSwagger relative_cache drill_world (plain_request\<lparr>path := [''docs'']\<rparr>))
     = SwaggerUi"
    by (simp add: app_def d)
  from a b c e show ?thesis by (intro conjI)
qed

theorem unlisted_method_or_path_witness:
  "recognized_path (path (plain_request\<lparr>req_method := DELETE, path := [''Search'']\<rparr>)) \<and>
   req_method (plain_request\<lparr>req_method := DELETE, path := [''Search'']\<rparr>)
     \<notin> set (listed_methods (path (plain_request\<lparr>req_method := DELETE, path := [''Search'']\<rparr>))) \<and>
   app Base relative_cache drill_world (plain_request\<lparr>req_method := DELETE, path := [''Search'']\<rparr>)
     = (Json 405 (ErrorBody ''Method Not Allowed''), drill_world) \<and>
   \<not> recognized_path (path (plain_request\<lparr>path := [''nowhere'']\<rparr>)) \<and>
   app Base relative_cache drill_world (plain_request\<lparr>path := [''nowhere'']\<rparr>)
     = (Json 404 (ErrorBody ''Not Found''), drill_world) \<and>
   form_path (path (plain_request\<lparr>path := [''registerform.html'']\<rparr>)) = Some ''RegisterForm.html'' \<and>
   app Base with_form drill_world (plain_request\<lparr>path := [''registerform.html'']\<rparr>)
     = (SentFile 200 ''text/html'' ''<form>'', drill_world)"
proof -
  let ?r1 = "plain_request\<lparr>req_method := DELETE, path := [''Search'']\<rparr>"
  let ?r2 = "plain_request\<lparr>path := [''nowhere'']\<rparr>"
  let ?r3 = "plain_request\<lparr>path := [''registerform.html'']\<rparr>"
  have h1: "recognized_path (path ?r1)" by (simp add: recognized_path_def matches_def lower_def)
  have h2: "req_method ?r1 \<notin> set (listed_methods (path ?r1))"
    by (simp add: listed_methods_def matches_def lower_def)
  have h3: "\<not> (req_method ?r1 = HEAD \<and> GET \<in> set (listed_methods (path ?r1)))" by simp
  have a: "app Base relative_cache drill_world ?r1
      = (Json 405 (ErrorBody ''Method Not Allowed''), drill_world)"
    using unlisted_method_or_path [of ?r1 Base relative_cache drill_world, THEN conjunct1]
      h1 h2 h3 by (simp only: simp_thms)
  have g1: "\<not> recognized_path (path ?r2)" by (simp add: recognized_path_def matches_def lower_def)
  have g2: "\<not> (form_path (path ?r2) \<noteq> None \<and> (req_method ?r2 = GET \<or> req_method ?r2 = HEAD))"
    by (simp add: form_path_def matches_def lower_def)
  have g3: "\<not> (Base = WithSwagger \<and> under_docs (path ?r2))" by simp
  have b: "app Base relative_cache drill_world ?r2 = (Json 404 (ErrorBody ''Not Found''), drill_world)"
    using unlisted_method_or_path [of ?r2 Base relative_cache drill_world,
        THEN conjunct2, THEN conjunct1] g1 g2 g3 by (simp only: simp_thms)
  have f1: "form_path (path ?r3) = Some ''RegisterForm.html''"
    by (simp add: form_path_def matches_def lower_def)
  have f2: "req_method ?r3 = GET \<or> req_method ?r3 = HEAD" by (simp add: plain_request_def)
  have f3: "\<not> script_hidden with_form \<and> script_files with_form ''RegisterForm.html'' = Some ''<form>''"
    by (simp add: with_form_def relative_cache_def)
  have c: "app Base with_form drill_world ?r3 = (SentFile 200 ''text/html'' ''<form>'', drill_world)"
    using unlisted_method_or_path [of ?r3 Base with_form drill_world,
        THEN conjunct2, THEN conjunct2, THEN conjunct1, rule_format, OF conjI, OF f1 f2,
        THEN conjunct2, THEN conjunct2, rule_format, OF f3] .
  from h1 h2 a g1 b f1 c show ?thesis by (intro conjI)
qed

section \<open>Unique ids\<close>

lemma distinct_splice:
  assumes "distinct (map f xs)"
  shows "distinct (map f (take k xs @ drop (Suc k) xs))"
proof -
  have "set (take k (map f xs)) \<inter> set (drop (Suc k) (map f xs)) = {}"
    using assms by (intro set_take_disj_set_drop_if_distinct) simp_all
  with assms show ?thesis
    by (simp add: take_map drop_map distinct_take distinct_drop
        flip: take_map drop_map)
qed

lemma delete_item_distinct:
  "distinct (map item_id (inventory w)) \<Longrightarrow>
   distinct (map item_id (inventory (snd (delete_item w req i))))"
  by (simp add: delete_item_def saveInventory_def Let_def distinct_splice
      del: map_append distinct_append split: option.splits number.splits)

lemma app_distinct:
  assumes "ids_below w" and "distinct (map item_id (inventory w))"
  shows "distinct (map item_id (inventory (snd (app rv opts w r))))"
proof (cases "creates rv r")
  case True
  from app_creates [OF True, of w opts] obtain it where "item_id it = nextId w"
    and "inventory (snd (app rv opts w r)) = inventory w @ [it]" by auto
  with assms show ?thesis by (auto simp: ids_below_def list_all_iff)
next
  case False
  show ?thesis
  proof (cases "req_method r = DELETE")
    case False
    with \<open>\<not> creates rv r\<close> assms(2) show ?thesis by (simp add: app_ids_unchanged)
  next
    case True
    then show ?thesis
      using assms(2) delete_item_distinct [of w r]
      by (cases "route_of rv (path r)")
         (simp_all add: app_def Let_def get_route_handles_def send_form_def
            method_not_allowed_def not_found_def)
  qed
qed

lemma serve_distinct:
  assumes "ids_below w" and "0 \<le> nextId w"
    and "nextId w + int (length (filter (creates rv) rs)) \<le> 2 ^ 53"
    and "distinct (map item_id (inventory w))"
  shows "distinct (map item_id (inventory (serve rv opts w rs)))"
proof -
  have "distinct (map item_id (inventory (serve rv opts w (take n rs))))" for n
  proof (induction n)
    case 0
    with assms(4) show ?case by simp
  next
    case (Suc n)
    show ?case
    proof (cases "n < length rs")
      case False
      with Suc show ?thesis by simp
    next
      case True
      then have split: "take (Suc n) rs = take n rs @ [rs ! n]"
        by (simp add: take_Suc_conv_app_nth)
      have "length (filter (creates rv) (take n rs)) \<le> length (filter (creates rv) rs)"
        by (metis append_take_drop_id filter_append length_append le_add1)
      with assms(3) have
        "nextId w + int (length (filter (creates rv) (take n rs))) \<le> 2 ^ 53"
        by linarith
      with assms(1,2) have "ids_below (serve rv opts w (take n rs))"
        by (rule serve_ids_below)
      from app_distinct [OF this Suc] show ?thesis
        by (simp add: split serve_append)
    qed
  qed
  from this [of "length rs"] show ?thesis by simp
qed

text \<open>
  Ids stay unique in the range in which the counter counts exactly: a service started
  on a file whose ids are unique and below \<open>2 ^ 53\<close> (in particular on an absent or
  unreadable file) holds no two items with the same id as long as the counter does not
  pass \<open>2 ^ 53\<close>.
\<close>

lemma reachable_ids_distinct:
  assumes "distinct (map item_id (loadInventory f))"
    and "\<forall>x\<in>set (loadInventory f). item_id x < 2 ^ 53"
    and "initial_nextId (loadInventory f) + int (length (filter (creates rv) rs)) \<le> 2 ^ 53"
  shows "distinct (map item_id (inventory (serve rv opts (boot f fs) rs)))"
proof (rule serve_distinct)
  show "ids_below (boot f fs)" using assms(2) by (rule boot_ids_below)
  show "0 \<le> nextId (boot f fs)" using boot_nextId_pos [OF assms(2), of fs] by simp
  show "nextId (boot f fs) + int (length (filter (creates rv) rs)) \<le> 2 ^ 53"
    using assms(3) by (simp add: boot_def)
  show "distinct (map item_id (inventory (boot f fs)))" using assms(1) by (simp add: boot_def)
qed

end
